theory Spec2Isabelle
  imports Main
begin

section \<open>The task registry of the ubxlib automation: \<open>tasks/__init__.py\<close>\<close>

text \<open>
  The module is straight-line code: three import statements, the construction of a
  configuration and of a root namespace, and seven \<open>add_collection\<close> calls. It is
  modelled as the list of its statements from line 2 on, executed top to bottom over the
  names the module binds; an exception raised by a statement ends the execution. Line 1
  imports the two classes of the library whose operations the model defines.

  The classes \<open>Collection\<close> and \<open>Config\<close> belong to the \<open>invoke\<close> library (version 1.0
  or later), which is not part of the repository. The operations the module calls on them
  are modelled after the library: \<open>Collection.transform\<close>, \<open>Collection.add_task\<close>,
  \<open>Collection.from_module\<close>, \<open>Collection.add_collection\<close>, \<open>Collection.configure\<close> and
  \<open>invoke.config.merge_dicts\<close>. The module \<open>scripts.u_utils\<close> and the seven task modules
  belong to the repository and lie outside this file; what they provide is a parameter
  of the model.
\<close>

subsection \<open>Values, dictionaries and exceptions\<close>

datatype error =
    ImportError string
  | NameError string
  | ValueError string
  | AmbiguousMergeError string

text \<open>
  The values a configuration holds. A Python \<open>dict\<close> keeps its keys in insertion order
  and holds each key once: it is an association list, written with \<open>setitem\<close>.
\<close>

datatype pyval =
    PNone
  | PBool bool
  | PInt int
  | PStr string
  | PDict (the_dict: "(string \<times> pyval) list")

type_synonym dict = "(string \<times> pyval) list"

text \<open>\<open>isinstance(v, dict)\<close>.\<close>

fun is_dict :: "pyval \<Rightarrow> bool" where
  "is_dict (PDict d) = True"
| "is_dict v = False"

text \<open>\<open>d[key] = val\<close>: replaces the value of a key that is there, appends a new key.\<close>

fun setitem :: "('k \<times> 'v) list \<Rightarrow> 'k \<Rightarrow> 'v \<Rightarrow> ('k \<times> 'v) list" where
  "setitem [] key val = [(key, val)]"
| "setitem ((k, v) # d) key val =
     (if k = key then (key, val) # d else (k, v) # setitem d key val)"

text \<open>The same for a dict of which only the keys are kept.\<close>

definition setkey :: "'k list \<Rightarrow> 'k \<Rightarrow> 'k list" where
  "setkey ks key = (if key \<in> set ks then ks else ks @ [key])"

text \<open>\<open>d[key]\<close>, with \<open>None\<close> standing for the \<open>KeyError\<close>.\<close>

definition getitem :: "('k \<times> 'v) list \<Rightarrow> 'k \<Rightarrow> 'v option" where
  "getitem d key = map_of d key"

text \<open>
  \<open>invoke.config.merge_dicts(base, updates)\<close>: walks the items of \<open>updates\<close>. A key that
  \<open>base\<close> has is merged recursively when both values are dicts, raises
  \<open>AmbiguousMergeError\<close> when exactly one of them is, and is overwritten otherwise; a
  new key is set to a copy of the value.
\<close>

function merge_dicts :: "dict \<Rightarrow> dict \<Rightarrow> error + dict" where
  "merge_dicts base [] = Inr base"
| "merge_dicts base ((key, val) # updates) =
     (case getitem base key of
        Some old \<Rightarrow>
          if is_dict val then
            if is_dict old then
              (case merge_dicts (the_dict old) (the_dict val) of
                 Inl e \<Rightarrow> Inl e
               | Inr m \<Rightarrow> merge_dicts (setitem base key (PDict m)) updates)
            else Inl (AmbiguousMergeError key)
          else
            if is_dict old then Inl (AmbiguousMergeError key)
            else merge_dicts (setitem base key val) updates
      | None \<Rightarrow> merge_dicts (setitem base key val) updates)"
  by pat_completeness auto
termination
proof (relation "measure (\<lambda>(base, updates). size (PDict updates))")
  fix base :: dict and key :: string and val :: pyval and updates :: dict and old :: pyval
  assume "is_dict val"
  then show "((the_dict old, the_dict val), (base, (key, val) # updates))
             \<in> measure (\<lambda>(base, updates). size (PDict updates))"
    by (cases val) simp_all
qed simp_all

subsection \<open>The \<open>invoke\<close> collection\<close>

text \<open>
  A \<open>Collection\<close>: its name (\<open>None\<close> for a root), the names of its tasks, its
  sub-collections by name, its configuration (\<open>_configuration\<close> in the library) and the
  naming switch \<open>auto_dash_names\<close>. Aliases and the default task are left out: the
  module sets neither.
\<close>

datatype collection =
  Collection
    (name: "string option")
    (tasks: "string list")
    (collections: "(string \<times> collection) list")
    (configuration: dict)
    (auto_dash_names: bool)

text \<open>\<open>Collection()\<close>: no name, nothing in it, \<open>auto_dash_names\<close> at its default.\<close>

definition new_collection :: "string option \<Rightarrow> collection" where
  "new_collection n = Collection n [] [] [] True"

text \<open>
  \<open>bool(collection)\<close>: a collection is true when it has a task, of its own or in one of
  its sub-collections.
\<close>

primrec has_tasks :: "collection \<Rightarrow> bool" where
  "has_tasks (Collection nm ts subs cf ad) =
     (ts \<noteq> [] \<or> list_ex snd (map (map_prod id has_tasks) subs))"

text \<open>
  \<open>Collection.transform(name)\<close>: with \<open>auto_dash_names\<close> every underscore that is
  neither the first nor the last character, nor next to a dot, becomes a dash; without
  it, every such dash becomes an underscore.
\<close>

definition transform :: "bool \<Rightarrow> string \<Rightarrow> string" where
  "transform auto_dash nm =
     (if nm = [] then nm
      else
        let from = (if auto_dash then CHR ''_'' else CHR ''-'');
            to = (if auto_dash then CHR ''-'' else CHR ''_'');
            end = length nm - 1
        in map (\<lambda>i.
                 if i \<noteq> 0 \<and> i \<noteq> end \<and> nm ! i = from
                    \<and> nm ! (i - 1) \<noteq> CHR ''.'' \<and> nm ! (i + 1) \<noteq> CHR ''.''
                 then to else nm ! i)
               [0..<length nm])"

text \<open>
  \<open>Collection.add_task(task)\<close> for a task with the name \<open>t\<close>: the transformed name must
  not be the name of a sub-collection.
\<close>

definition add_task :: "collection \<Rightarrow> string \<Rightarrow> error + collection" where
  "add_task self t =
     (let n = transform (auto_dash_names self) t in
      if n \<in> set (map fst (collections self)) then Inl (ValueError ''Name conflict'')
      else Inr (Collection (name self) (setkey (tasks self) n)
                  (collections self) (configuration self) (auto_dash_names self)))"

fun add_tasks :: "collection \<Rightarrow> string list \<Rightarrow> error + collection" where
  "add_tasks c [] = Inr c"
| "add_tasks c (t # ts) =
     (case add_task c t of Inl e \<Rightarrow> Inl e | Inr c' \<Rightarrow> add_tasks c' ts)"

text \<open>
  A task module as \<open>Collection.from_module\<close> reads it: the names of the tasks it defines,
  in the order of their definition, and the collections it may bring itself under the
  names \<open>ns\<close> and \<open>namespace\<close> (\<open>None\<close> when the module has no such attribute or the
  attribute is no collection).
\<close>

record pymodule =
  mod_tasks :: "string list"
  mod_ns :: "collection option"
  mod_namespace :: "collection option"

text \<open>
  The collection a module brings itself: the first of \<open>ns\<close> and \<open>namespace\<close> that is a
  collection and is true.
\<close>

fun candidate :: "collection option \<Rightarrow> collection option" where
  "candidate None = None"
| "candidate (Some obj) = (if has_tasks obj then Some obj else None)"

definition own_collection :: "pymodule \<Rightarrow> collection option" where
  "own_collection m =
     (case candidate (mod_ns m) of
        Some obj \<Rightarrow> Some obj
      | None \<Rightarrow> candidate (mod_namespace m))"

text \<open>
  \<open>Collection.from_module(module)\<close> for the module with the name \<open>module_name\<close> (the last
  component of its \<open>__name__\<close>). A module that brings a collection gives a copy of it:
  named after that collection, or after the module when the collection has no name, with
  the keys of its tasks and of its sub-collections transformed and with its
  configuration. Any other module gives a collection named after the module, holding
  the module's tasks.
\<close>

definition from_module :: "string \<Rightarrow> pymodule \<Rightarrow> error + collection" where
  "from_module module_name m =
     (case own_collection m of
        Some obj \<Rightarrow>
          Inr (Collection
                 (Some (transform True
                          (case name obj of
                             Some nm \<Rightarrow> if nm = [] then module_name else nm
                           | None \<Rightarrow> module_name)))
                 (foldl (\<lambda>ks k. setkey ks (transform True k)) [] (tasks obj))
                 (foldl (\<lambda>d p. setitem d (transform True (fst p)) (snd p)) []
                    (collections obj))
                 (configuration obj)
                 True)
      | None \<Rightarrow> add_tasks (new_collection (Some (transform True module_name))) (mod_tasks m))"

text \<open>
  \<open>self.add_collection(module)\<close>: the module becomes a collection, which must have a name;
  the transformed name must not be the name of a task of \<open>self\<close>; a collection that
  \<open>self\<close> holds under that name already is replaced.
\<close>

definition add_collection :: "collection \<Rightarrow> string \<Rightarrow> pymodule \<Rightarrow> error + collection" where
  "add_collection self module_name m =
     (case from_module module_name m of
        Inl e \<Rightarrow> Inl e
      | Inr coll \<Rightarrow>
          (case name coll of
             None \<Rightarrow> Inl (ValueError ''Non-root collections must have a name!'')
           | Some nm \<Rightarrow>
               if nm = [] then Inl (ValueError ''Non-root collections must have a name!'')
               else
                 let n = transform (auto_dash_names self) nm in
                 if n \<in> set (tasks self) then Inl (ValueError ''Name conflict'')
                 else Inr (Collection (name self) (tasks self)
                             (setitem (collections self) n coll)
                             (configuration self) (auto_dash_names self))))"

text \<open>\<open>self.configure(options)\<close>: merges the options into the collection's configuration.\<close>

definition configure :: "collection \<Rightarrow> dict \<Rightarrow> error + collection" where
  "configure self options =
     (case merge_dicts (configuration self) options of
        Inl e \<Rightarrow> Inl e
      | Inr d \<Rightarrow> Inr (Collection (name self) (tasks self) (collections self) d
                       (auto_dash_names self)))"

subsection \<open>The world the module runs in\<close>

text \<open>What the module reads of \<open>scripts.u_utils\<close>: its two directories.\<close>

record u_utils =
  UBXLIB_DIR :: string
  AUTOMATION_DIR :: string

text \<open>
  What loading a task module that is not loaded yet does: there is no such module, its
  code raises, or it is loaded.
\<close>

datatype outcome =
    Missing
  | Raises error
  | Loaded (the_loaded: pymodule)

text \<open>
  The state outside the module. \<open>sys_u_utils\<close> and \<open>sys_tasks\<close> are the interpreter's
  table of loaded modules (\<open>sys.modules\<close>) as far as the module looks into it: the
  utility module and the task modules loaded so far, the latter by the last component
  of their names. \<open>load_u_utils\<close> and \<open>load_task\<close> are what loading a module that is not
  in the table gives. \<open>invoke_config_levels\<close> are the settings that \<open>Config()\<close> loads,
  lowest level first: the defaults of the library and the system and user configuration
  files it finds. The command line and the environment variables are part of the world as
  well; no statement of the module reads them.
\<close>

record world =
  sys_u_utils :: "u_utils option"
  sys_tasks :: "(string \<times> pymodule) list"
  load_u_utils :: "error + u_utils"
  load_task :: "string \<Rightarrow> outcome"
  invoke_config_levels :: "dict list"
  argv :: "string list"
  environ :: "(string \<times> string) list"

text \<open>
  What importing gives in a world: the module of the table when it is loaded, and what
  loading it gives when it is not.
\<close>

definition scripts_u_utils :: "world \<Rightarrow> error + u_utils" where
  "scripts_u_utils w = (case sys_u_utils w of Some u \<Rightarrow> Inr u | None \<Rightarrow> load_u_utils w)"

definition task_modules :: "world \<Rightarrow> string \<Rightarrow> outcome" where
  "task_modules w n = (case getitem (sys_tasks w) n of Some m \<Rightarrow> Loaded m | None \<Rightarrow> load_task w n)"

text \<open>The names the module binds; \<open>None\<close> is a name that is not bound yet.\<close>

record globals =
  u_utils :: "u_utils option"
  modules :: "(string \<times> pymodule) list"
  ns :: "collection option"
  cfg :: "dict option"

definition empty_globals :: globals where
  "empty_globals = \<lparr>u_utils = None, modules = [], ns = None, cfg = None\<rparr>"

text \<open>
  \<open>from scripts import u_utils\<close>: a module that is loaded is taken from the table; one
  that is not is loaded, and enters the table unless loading it raises.
\<close>

definition import_u_utils :: "world \<Rightarrow> world \<times> (error + u_utils)" where
  "import_u_utils w =
     (case sys_u_utils w of
        Some u \<Rightarrow> (w, Inr u)
      | None \<Rightarrow>
          (case load_u_utils w of
             Inl e \<Rightarrow> (w, Inl e)
           | Inr u \<Rightarrow> (w\<lparr>sys_u_utils := Some u\<rparr>, Inr u)))"

text \<open>
  \<open>from . import a, b, ...\<close> runs in two passes. The first pass goes through the names in
  the order written and loads each submodule that is not loaded yet: a submodule that
  does not exist is passed over, an exception raised by the code of a submodule ends
  the statement, a submodule that loads enters the table.
\<close>

fun load_tasks :: "world \<Rightarrow> string list \<Rightarrow> world \<times> error option" where
  "load_tasks w [] = (w, None)"
| "load_tasks w (n # rest) =
     (case getitem (sys_tasks w) n of
        Some m \<Rightarrow> load_tasks w rest
      | None \<Rightarrow>
          (case load_task w n of
             Missing \<Rightarrow> load_tasks w rest
           | Raises e \<Rightarrow> (w, Some e)
           | Loaded m \<Rightarrow> load_tasks (w\<lparr>sys_tasks := setitem (sys_tasks w) n m\<rparr>) rest))"

text \<open>
  The second pass binds the names, again in the order written: a name whose submodule is
  not in the table raises \<open>ImportError\<close>.
\<close>

fun bind_tasks ::
  "world \<Rightarrow> string list \<Rightarrow> (string \<times> pymodule) list \<Rightarrow> error + (string \<times> pymodule) list"
where
  "bind_tasks w [] b = Inr b"
| "bind_tasks w (n # rest) b =
     (case getitem (sys_tasks w) n of
        None \<Rightarrow> Inl (ImportError n)
      | Some m \<Rightarrow> bind_tasks w rest (setitem b n m))"

text \<open>
  A \<open>Config\<close> is modelled by its merged view, the dict that item access reads.
  \<open>Config()\<close>: the levels are merged, one after the other, into an empty dict.
\<close>

fun merge_levels :: "dict \<Rightarrow> dict list \<Rightarrow> error + dict" where
  "merge_levels d [] = Inr d"
| "merge_levels d (l # ls) =
     (case merge_dicts d l of Inl e \<Rightarrow> Inl e | Inr d' \<Rightarrow> merge_levels d' ls)"

definition new_config :: "world \<Rightarrow> error + dict" where
  "new_config w = merge_levels [] (invoke_config_levels w)"

text \<open>
  \<open>cfg[key] = val\<close> on a \<open>Config\<close>: the library records the value as a modification and
  merges its levels again, the modifications last. On the merged view that is the merge
  of the one item, so a value that is no dict cannot replace a dict.
\<close>

definition config_setitem :: "dict \<Rightarrow> string \<Rightarrow> pyval \<Rightarrow> error + dict" where
  "config_setitem d key val = merge_dicts d [(key, val)]"

text \<open>Whether a dict is stored under a key.\<close>

definition holds_dict :: "dict \<Rightarrow> string \<Rightarrow> bool" where
  "holds_dict d key = (case getitem d key of Some old \<Rightarrow> is_dict old | None \<Rightarrow> False)"

subsection \<open>The statements of the module\<close>

datatype stmt =
    ImportUtils
  | ImportTasks "string list"
  | NewCollection
  | NewConfig
  | SetItem string "u_utils \<Rightarrow> string"
  | Configure
  | AddCollection string

text \<open>
  One statement: the world and the bound names before, the world after and either the
  exception raised or the bound names after.
\<close>

fun exec :: "stmt \<Rightarrow> world \<Rightarrow> globals \<Rightarrow> world \<times> (error + globals)" where
  "exec ImportUtils w g =
     (case import_u_utils w of
        (w', Inl e) \<Rightarrow> (w', Inl e)
      | (w', Inr u) \<Rightarrow> (w', Inr (g\<lparr>u_utils := Some u\<rparr>)))"
| "exec (ImportTasks names) w g =
     (case load_tasks w names of
        (w', Some e) \<Rightarrow> (w', Inl e)
      | (w', None) \<Rightarrow>
          (w', case bind_tasks w' names (modules g) of
                 Inl e \<Rightarrow> Inl e
               | Inr b \<Rightarrow> Inr (g\<lparr>modules := b\<rparr>)))"
| "exec NewCollection w g = (w, Inr (g\<lparr>ns := Some (new_collection None)\<rparr>))"
| "exec NewConfig w g =
     (w, case new_config w of
           Inl e \<Rightarrow> Inl e
         | Inr d \<Rightarrow> Inr (g\<lparr>cfg := Some d\<rparr>))"
| "exec (SetItem key rhs) w g =
     (w, case u_utils g of
           None \<Rightarrow> Inl (NameError ''u_utils'')
         | Some u \<Rightarrow>
             (case cfg g of
                None \<Rightarrow> Inl (NameError ''cfg'')
              | Some d \<Rightarrow>
                  (case config_setitem d key (PStr (rhs u)) of
                     Inl e \<Rightarrow> Inl e
                   | Inr d' \<Rightarrow> Inr (g\<lparr>cfg := Some d'\<rparr>))))"
| "exec Configure w g =
     (w, case ns g of
           None \<Rightarrow> Inl (NameError ''ns'')
         | Some c \<Rightarrow>
             (case cfg g of
                None \<Rightarrow> Inl (NameError ''cfg'')
              | Some d \<Rightarrow>
                  (case configure c d of
                     Inl e \<Rightarrow> Inl e
                   | Inr c' \<Rightarrow> Inr (g\<lparr>ns := Some c'\<rparr>))))"
| "exec (AddCollection n) w g =
     (w, case ns g of
           None \<Rightarrow> Inl (NameError ''ns'')
         | Some c \<Rightarrow>
             (case getitem (modules g) n of
                None \<Rightarrow> Inl (NameError n)
              | Some m \<Rightarrow>
                  (case add_collection c n m of
                     Inl e \<Rightarrow> Inl e
                   | Inr c' \<Rightarrow> Inr (g\<lparr>ns := Some c'\<rparr>))))"

text \<open>Statements in sequence: the first exception ends the run.\<close>

fun run :: "stmt list \<Rightarrow> world \<Rightarrow> globals \<Rightarrow> world \<times> (error + globals)" where
  "run [] w g = (w, Inr g)"
| "run (s # ss) w g =
     (case exec s w g of
        (w', Inl e) \<Rightarrow> (w', Inl e)
      | (w', Inr g') \<Rightarrow> run ss w' g')"

text \<open>The module, line by line.\<close>

definition task_names :: "string list" where
  "task_names =
     [''nrfconnect'', ''nrf5'', ''stm32cube'', ''esp_idf'', ''arduino'', ''automation'',
      ''linux'']"

definition module_body :: "stmt list" where
  "module_body =
     [ImportUtils,
      ImportTasks task_names,
      NewCollection,
      NewConfig,
      SetItem ''root_dir'' UBXLIB_DIR,
      SetItem ''vscode_dir'' (\<lambda>u. UBXLIB_DIR u @ ''/.vscode''),
      SetItem ''cfg_dir'' AUTOMATION_DIR,
      Configure,
      AddCollection ''nrfconnect'',
      AddCollection ''nrf5'',
      AddCollection ''stm32cube'',
      AddCollection ''esp_idf'',
      AddCollection ''arduino'',
      AddCollection ''automation'',
      AddCollection ''linux'']"

text \<open>Importing the module: its body runs over no bound names.\<close>

definition construct :: "world \<Rightarrow> world \<times> (error + globals)" where
  "construct w = run module_body w empty_globals"

subsection \<open>Which exception an import statement raises\<close>

text \<open>
  The first name, in the order written, whose import raises, and the first name whose
  submodule does not exist, both read off what importing gives.
\<close>

fun first_raising :: "(string \<Rightarrow> outcome) \<Rightarrow> string list \<Rightarrow> error option" where
  "first_raising f [] = None"
| "first_raising f (n # rest) =
     (case f n of Raises e \<Rightarrow> Some e | _ \<Rightarrow> first_raising f rest)"

fun first_missing :: "(string \<Rightarrow> outcome) \<Rightarrow> string list \<Rightarrow> string option" where
  "first_missing f [] = None"
| "first_missing f (n # rest) =
     (case f n of Missing \<Rightarrow> Some n | _ \<Rightarrow> first_missing f rest)"

subsection \<open>What the namespace holds for a module\<close>

text \<open>
  The collection that \<open>add_collection\<close> makes of a module, and the name under which a
  root namespace with \<open>auto_dash_names\<close> registers it.
\<close>

definition module_collection :: "string \<Rightarrow> pymodule \<Rightarrow> collection" where
  "module_collection n m =
     (case from_module n m of Inr coll \<Rightarrow> coll | Inl e \<Rightarrow> new_collection None)"

definition registered_name :: "string \<Rightarrow> pymodule \<Rightarrow> string" where
  "registered_name n m =
     (case name (module_collection n m) of Some nm \<Rightarrow> transform True nm | None \<Rightarrow> [])"

subsection \<open>Concrete worlds\<close>

text \<open>
  A checkout at \<open>/ubxlib\<close> in a fresh interpreter: no module is loaded, every task module
  is a plain module of two tasks, and the library loads one setting of its own.
\<close>

definition example_module :: pymodule where
  "example_module =
     \<lparr>mod_tasks = [''build'', ''check_installation''], mod_ns = None, mod_namespace = None\<rparr>"

definition example_world :: world where
  "example_world =
     \<lparr>sys_u_utils = None,
      sys_tasks = [],
      load_u_utils =
        Inr \<lparr>UBXLIB_DIR = ''/ubxlib'',
             AUTOMATION_DIR = ''/ubxlib/port/platform/common/automation''\<rparr>,
      load_task = (\<lambda>n. if n \<in> set task_names then Loaded example_module else Missing),
      invoke_config_levels = [[(''run'', PDict [(''echo'', PBool False)])]],
      argv = [''inv'', ''--list''],
      environ = []\<rparr>"

definition example_cfg :: dict where
  "example_cfg =
     [(''run'', PDict [(''echo'', PBool False)]),
      (''root_dir'', PStr ''/ubxlib''),
      (''vscode_dir'', PStr ''/ubxlib/.vscode''),
      (''cfg_dir'', PStr ''/ubxlib/port/platform/common/automation'')]"

definition example_ns :: collection where
  "example_ns =
     Collection None []
       (map (\<lambda>n. (n, Collection (Some n) [''build'', ''check-installation''] [] [] True))
          [''nrfconnect'', ''nrf5'', ''stm32cube'', ''esp-idf'', ''arduino'', ''automation'',
           ''linux''])
       example_cfg True"

definition example_globals :: globals where
  "example_globals =
     \<lparr>u_utils =
        Some \<lparr>UBXLIB_DIR = ''/ubxlib'',
              AUTOMATION_DIR = ''/ubxlib/port/platform/common/automation''\<rparr>,
      modules = map (\<lambda>n. (n, example_module)) task_names,
      ns = Some example_ns,
      cfg = Some example_cfg\<rparr>"

text \<open>The names bound when \<open>ns.configure(cfg)\<close> has run and no collection is added yet.\<close>

definition example_configured :: globals where
  "example_configured = example_globals\<lparr>ns := Some (Collection None [] [] example_cfg True)\<rparr>"

text \<open>The configuration after a later \<open>cfg['root_dir'] = u_utils.AUTOMATION_DIR\<close>.\<close>

definition example_cfg_reassigned :: dict where
  "example_cfg_reassigned =
     [(''run'', PDict [(''echo'', PBool False)]),
      (''root_dir'', PStr ''/ubxlib/port/platform/common/automation''),
      (''vscode_dir'', PStr ''/ubxlib/.vscode''),
      (''cfg_dir'', PStr ''/ubxlib/port/platform/common/automation'')]"

text \<open>The same world with another setting loaded by the library.\<close>

definition example_world_echo :: world where
  "example_world_echo =
     example_world\<lparr>invoke_config_levels := [[(''run'', PDict [(''echo'', PBool True)])]]\<rparr>"

text \<open>A world in which the utility module gives two empty directories.\<close>

definition world_empty_dirs :: world where
  "world_empty_dirs =
     example_world\<lparr>load_u_utils := Inr \<lparr>UBXLIB_DIR = [], AUTOMATION_DIR = []\<rparr>\<rparr>"

definition example_cfg_empty_dirs :: dict where
  "example_cfg_empty_dirs =
     [(''run'', PDict [(''echo'', PBool False)]),
      (''root_dir'', PStr []),
      (''vscode_dir'', PStr ''/.vscode''),
      (''cfg_dir'', PStr [])]"







section \<open>Dictionaries\<close>

lemma getitem_setitem:
  "getitem (setitem d k v) k' = (if k' = k then Some v else getitem d k')"
  by (induction d) (auto simp: getitem_def)

lemma keys_setitem:
  "map fst (setitem d k v) = (if k \<in> set (map fst d) then map fst d else map fst d @ [k])"
  by (induction d) force+

lemma distinct_setitem: "distinct (map fst d) \<Longrightarrow> distinct (map fst (setitem d k v))"
  by (simp add: keys_setitem)

lemma setitem_new: "getitem d k = None \<Longrightarrow> setitem d k v = d @ [(k, v)]"
  by (induction d) (auto simp: getitem_def)

lemma setitem_same: "getitem d k = Some v \<Longrightarrow> setitem d k v = d"
  by (induction d) (auto simp: getitem_def split: if_splits)

lemma set_setitem: "set (setitem d k v) \<subseteq> insert (k, v) (set d)"
  by (induction d) (auto split: if_splits)

lemma getitem_keys: "getitem d k = Some v \<Longrightarrow> k \<in> set (map fst d)"
  by (auto simp: getitem_def dest: map_of_SomeD intro: rev_image_eqI)


lemma holds_dict_setitem:
  "holds_dict (setitem d k v) k' = (if k' = k then is_dict v else holds_dict d k')"
  by (simp add: holds_dict_def getitem_setitem)

text \<open>Merging a dict into one that shares no key with it appends its items.\<close>

lemma merge_dicts_fresh:
  "distinct (map fst (b @ d)) \<Longrightarrow> merge_dicts b d = Inr (b @ d)"
proof (induction d arbitrary: b)
  case Nil
  then show ?case by simp
next
  case (Cons p d)
  obtain k v where p: "p = (k, v)" by (cases p)
  from Cons.prems p have none: "getitem b k = None"
    by (auto simp: getitem_def map_of_eq_None_iff)
  from Cons.prems p have "distinct (map fst ((b @ [(k, v)]) @ d))" by auto
  then have "merge_dicts (b @ [(k, v)]) d = Inr ((b @ [(k, v)]) @ d)" by (rule Cons.IH)
  with none p show ?case by (simp add: setitem_new)
qed

text \<open>A merge never stores a key twice.\<close>

lemma merge_dicts_distinct:
  "distinct (map fst b) \<Longrightarrow> merge_dicts b u = Inr r \<Longrightarrow> distinct (map fst r)"
proof (induction b u arbitrary: r rule: merge_dicts.induct)
  case (1 base)
  then show ?case by simp
next
  case (2 base key val updates)
  have step: "distinct (map fst (setitem base key v))" for v
    using "2.prems"(1) by (rule distinct_setitem)
  show ?case
  proof (cases "getitem base key")
    case None
    with "2.prems"(2) have "merge_dicts (setitem base key val) updates = Inr r" by simp
    with "2.IH"(1) [OF None step] show ?thesis .
  next
    case (Some old)
    show ?thesis
    proof (cases "is_dict val")
      case True
      note dv = this
      show ?thesis
      proof (cases "is_dict old")
        case True
        with "2.prems"(2) Some dv obtain m
          where m: "merge_dicts (the_dict old) (the_dict val) = Inr m"
            and r: "merge_dicts (setitem base key (PDict m)) updates = Inr r"
          by (auto split: sum.splits)
        from "2.IH"(3) [OF Some dv True m step r] show ?thesis .
      next
        case False
        with "2.prems"(2) Some dv show ?thesis by simp
      qed
    next
      case False
      note dv = this
      show ?thesis
      proof (cases "is_dict old")
        case True
        with "2.prems"(2) Some dv show ?thesis by simp
      next
        case False
        with "2.prems"(2) Some dv
        have "merge_dicts (setitem base key val) updates = Inr r" by simp
        with "2.IH"(4) [OF Some dv False step] show ?thesis .
      qed
    qed
  qed
qed

lemma merge_levels_distinct:
  "distinct (map fst d) \<Longrightarrow> merge_levels d ls = Inr r \<Longrightarrow> distinct (map fst r)"
proof (induction ls arbitrary: d)
  case Nil
  then show ?case by simp
next
  case (Cons l ls)
  from Cons.prems(2) obtain d' where d': "merge_dicts d l = Inr d'"
    and r: "merge_levels d' ls = Inr r"
    by (auto split: sum.splits)
  from Cons.prems(1) d' have "distinct (map fst d')" by (rule merge_dicts_distinct)
  then show ?case using r by (rule Cons.IH)
qed

lemma new_config_distinct: "new_config w = Inr d \<Longrightarrow> distinct (map fst d)"
  unfolding new_config_def by (rule merge_levels_distinct [of "[]"]) simp_all

lemma config_setitem_str:
  "config_setitem d k (PStr s) =
     (if holds_dict d k then Inl (AmbiguousMergeError k) else Inr (setitem d k (PStr s)))"
  by (simp add: config_setitem_def holds_dict_def split: option.splits)

section \<open>Collections\<close>

lemma configure_fresh:
  "configuration c = [] \<Longrightarrow> distinct (map fst d) \<Longrightarrow>
   configure c d = Inr (Collection (name c) (tasks c) (collections c) d (auto_dash_names c))"
  using merge_dicts_fresh [of "[]" d] by (simp add: configure_def)

lemma add_tasks_fresh:
  "add_tasks (Collection nm acc [] cf ad) ts =
     Inr (Collection nm (foldl (\<lambda>ks t. setkey ks (transform ad t)) acc ts) [] cf ad)"
  by (induction ts arbitrary: acc) (simp_all add: add_task_def)

lemma foldl_setkey_acc:
  "acc \<noteq> [] \<Longrightarrow> foldl (\<lambda>ks t. setkey ks (f t)) acc ts \<noteq> []"
  by (induction ts arbitrary: acc) (auto simp: setkey_def)

lemma foldl_setkey_nonempty:
  assumes "ts \<noteq> []"
  shows "foldl (\<lambda>ks t. setkey ks (f t)) [] ts \<noteq> []"
proof -
  from assms obtain t rest where ts: "ts = t # rest" by (cases ts) auto
  have "setkey [] (f t) \<noteq> []" by (simp add: setkey_def)
  then have "foldl (\<lambda>ks t. setkey ks (f t)) (setkey [] (f t)) rest \<noteq> []"
    by (rule foldl_setkey_acc)
  with ts show ?thesis by simp
qed

text \<open>A module always becomes a collection; a plain module becomes this one.\<close>

lemma from_module_Inr: "\<exists>coll. from_module n m = Inr coll"
  by (simp add: from_module_def new_collection_def add_tasks_fresh split: option.splits)

lemma from_module_plain:
  "own_collection m = None \<Longrightarrow>
   from_module n m =
     Inr (Collection (Some (transform True n))
            (foldl (\<lambda>ks t. setkey ks (transform True t)) [] (mod_tasks m)) [] [] True)"
  by (simp add: from_module_def new_collection_def add_tasks_fresh)

lemma length_transform: "length (transform a nm) = length nm"
  by (simp add: transform_def Let_def)

lemma transform_Nil_iff: "transform a nm = [] \<longleftrightarrow> nm = []"
  using length_transform [of a nm] by (metis length_0_conv)

text \<open>The collection of a module with a name has a name.\<close>

lemma from_module_name:
  "n \<noteq> [] \<Longrightarrow> from_module n m = Inr coll \<Longrightarrow> \<exists>nm. name coll = Some nm \<and> nm \<noteq> []"
  by (auto simp: from_module_def new_collection_def add_tasks_fresh transform_Nil_iff
        split: option.splits if_splits)

text \<open>Adding a module with a name to a collection without tasks.\<close>

lemma add_collection_root:
  assumes "tasks c = []" and "n \<noteq> []"
  shows "\<exists>coll nm. from_module n m = Inr coll \<and> name coll = Some nm
           \<and> add_collection c n m =
               Inr (Collection (name c) [] (setitem (collections c)
                      (transform (auto_dash_names c) nm) coll)
                      (configuration c) (auto_dash_names c))"
proof -
  obtain coll where coll: "from_module n m = Inr coll" using from_module_Inr by blast
  with assms(2) obtain nm where nm: "name coll = Some nm" "nm \<noteq> []"
    using from_module_name by blast
  with coll assms(1) show ?thesis by (simp add: add_collection_def Let_def)
qed

text \<open>The names of the seven modules as the library registers them.\<close>

lemma transform_names:
  "transform True ''nrfconnect'' = ''nrfconnect''"
  "transform True ''nrf5'' = ''nrf5''"
  "transform True ''stm32cube'' = ''stm32cube''"
  "transform True ''esp_idf'' = ''esp-idf''"
  "transform True ''esp-idf'' = ''esp-idf''"
  "transform True ''arduino'' = ''arduino''"
  "transform True ''automation'' = ''automation''"
  "transform True ''linux'' = ''linux''"
  by code_simp+

lemma dashed_names:
  "map (transform True) task_names =
     [''nrfconnect'', ''nrf5'', ''stm32cube'', ''esp-idf'', ''arduino'', ''automation'',
      ''linux'']"
  by (simp add: task_names_def transform_names)

section \<open>Imports\<close>

subsection \<open>The utility module\<close>

lemma snd_import_u_utils: "snd (import_u_utils w) = scripts_u_utils w"
  by (simp add: import_u_utils_def scripts_u_utils_def split: option.splits sum.splits)

lemma import_u_utils_frame:
  "fst (import_u_utils w) = w\<lparr>sys_u_utils := sys_u_utils (fst (import_u_utils w))\<rparr>"
  by (simp add: import_u_utils_def split: option.splits sum.splits)


lemma import_u_utils_resolution:
  "scripts_u_utils (fst (import_u_utils w)) = scripts_u_utils w"
  by (simp add: import_u_utils_def scripts_u_utils_def split: option.splits sum.splits)

subsection \<open>The first pass over the task modules\<close>

lemma task_modules_cached:
  "task_modules (w\<lparr>sys_tasks := setitem (sys_tasks w) n m\<rparr>) k =
     (if k = n then Loaded m else task_modules w k)"
  by (simp add: task_modules_def getitem_setitem split: option.splits)

lemma load_tasks_fields:
  "sys_u_utils (fst (load_tasks w names)) = sys_u_utils w
   \<and> load_u_utils (fst (load_tasks w names)) = load_u_utils w
   \<and> load_task (fst (load_tasks w names)) = load_task w
   \<and> invoke_config_levels (fst (load_tasks w names)) = invoke_config_levels w
   \<and> argv (fst (load_tasks w names)) = argv w
   \<and> environ (fst (load_tasks w names)) = environ w"
  by (induction names arbitrary: w) (simp_all split: option.splits outcome.splits)

lemma load_tasks_frame:
  "fst (load_tasks w names) = w\<lparr>sys_tasks := sys_tasks (fst (load_tasks w names))\<rparr>"
  by (rule world.equality) (simp_all add: load_tasks_fields)

text \<open>What importing gives is the same before and after the pass.\<close>

lemma load_tasks_resolution:
  "task_modules (fst (load_tasks w names)) k = task_modules w k"
proof (induction names arbitrary: w)
  case Nil
  show ?case by simp
next
  case (Cons n names)
  show ?case
  proof (cases "getitem (sys_tasks w) n")
    case (Some m)
    with Cons.IH [of w] show ?thesis by simp
  next
    case None
    show ?thesis
    proof (cases "load_task w n")
      case Missing
      with None Cons.IH [of w] show ?thesis by simp
    next
      case (Raises e)
      with None show ?thesis by simp
    next
      case (Loaded m)
      from None Loaded have "task_modules w n = Loaded m" by (simp add: task_modules_def)
      then have "task_modules (w\<lparr>sys_tasks := setitem (sys_tasks w) n m\<rparr>) k = task_modules w k"
        by (simp add: task_modules_cached)
      with None Loaded Cons.IH [of "w\<lparr>sys_tasks := setitem (sys_tasks w) n m\<rparr>"]
      show ?thesis by simp
    qed
  qed
qed

lemma load_tasks_resolution_fun:
  "task_modules (fst (load_tasks w names)) = task_modules w"
  by (rule ext) (rule load_tasks_resolution)

text \<open>The pass ends with the exception of the first name whose import raises.\<close>

lemma load_tasks_error:
  "snd (load_tasks w names) = first_raising (task_modules w) names"
proof (induction names arbitrary: w)
  case Nil
  show ?case by simp
next
  case (Cons n names)
  show ?case
  proof (cases "getitem (sys_tasks w) n")
    case (Some m)
    with Cons.IH [of w] show ?thesis by (simp add: task_modules_def)
  next
    case None
    show ?thesis
    proof (cases "load_task w n")
      case Missing
      with None Cons.IH [of w] show ?thesis by (simp add: task_modules_def)
    next
      case (Raises e)
      with None show ?thesis by (simp add: task_modules_def)
    next
      case (Loaded m)
      from None Loaded have n: "task_modules w n = Loaded m" by (simp add: task_modules_def)
      then have "task_modules (w\<lparr>sys_tasks := setitem (sys_tasks w) n m\<rparr>) = task_modules w"
        by (auto simp: task_modules_cached)
      with None Loaded n Cons.IH [of "w\<lparr>sys_tasks := setitem (sys_tasks w) n m\<rparr>"]
      show ?thesis by simp
    qed
  qed
qed

text \<open>The table only grows, and only by the names of the statement.\<close>

lemma load_tasks_keeps:
  "getitem (sys_tasks w) k = Some v \<Longrightarrow>
   getitem (sys_tasks (fst (load_tasks w names))) k = Some v"
proof (induction names arbitrary: w)
  case Nil
  then show ?case by simp
next
  case (Cons n names)
  show ?case
  proof (cases "getitem (sys_tasks w) n")
    case (Some m)
    with Cons show ?thesis by simp
  next
    case None
    show ?thesis
    proof (cases "load_task w n")
      case Missing
      with None Cons show ?thesis by simp
    next
      case (Raises e)
      with None Cons.prems show ?thesis by simp
    next
      case (Loaded m)
      from None Cons.prems have "k \<noteq> n" by auto
      with Cons.prems
      have "getitem (sys_tasks (w\<lparr>sys_tasks := setitem (sys_tasks w) n m\<rparr>)) k = Some v"
        by (simp add: getitem_setitem)
      from Cons.IH [OF this] None Loaded show ?thesis by simp
    qed
  qed
qed


text \<open>A module in the table is what importing it gives.\<close>

lemma table_resolution:
  "getitem (sys_tasks w) k = Some v \<Longrightarrow> task_modules w k = Loaded v"
  by (simp add: task_modules_def)

text \<open>After a pass that does not raise, the modules that load are in the table.\<close>

lemma load_tasks_loaded:
  "snd (load_tasks w names) = None \<Longrightarrow> k \<in> set names \<Longrightarrow> task_modules w k = Loaded m \<Longrightarrow>
   getitem (sys_tasks (fst (load_tasks w names))) k = Some m"
proof (induction names arbitrary: w)
  case Nil
  then show ?case by simp
next
  case (Cons n names)
  let ?w1 = "\<lambda>x. w\<lparr>sys_tasks := setitem (sys_tasks w) n x\<rparr>"
  show ?case
  proof (cases "getitem (sys_tasks w) n")
    case (Some x)
    show ?thesis
    proof (cases "k = n")
      case True
      with Some Cons.prems(3) have "getitem (sys_tasks w) k = Some m"
        by (simp add: task_modules_def)
      then show ?thesis by (rule load_tasks_keeps)
    next
      case False
      with Some Cons show ?thesis by simp
    qed
  next
    case None
    show ?thesis
    proof (cases "load_task w n")
      case Missing
      with None Cons.prems(3) have "k \<noteq> n" by (auto simp: task_modules_def)
      with None Missing Cons show ?thesis by simp
    next
      case (Raises e)
      with None Cons.prems(1) show ?thesis by simp
    next
      case (Loaded x)
      from None Loaded have n: "task_modules w n = Loaded x" by (simp add: task_modules_def)
      show ?thesis
      proof (cases "k = n")
        case True
        with n Cons.prems(3) have "x = m" by simp
        then have "getitem (sys_tasks (?w1 x)) k = Some m"
          using True by (simp add: getitem_setitem)
        from load_tasks_keeps [OF this] None Loaded show ?thesis by simp
      next
        case False
        with Cons.prems(3) have "task_modules (?w1 x) k = Loaded m"
          by (simp add: task_modules_cached)
        moreover from Cons.prems(1) None Loaded have "snd (load_tasks (?w1 x) names) = None"
          by simp
        moreover from Cons.prems(2) False have "k \<in> set names" by simp
        ultimately have "getitem (sys_tasks (fst (load_tasks (?w1 x) names))) k = Some m"
          by (rule Cons.IH [rotated 2])
        with None Loaded show ?thesis by simp
      qed
    qed
  qed
qed

text \<open>A name that is in the table after the pass is one whose import gives a module.\<close>

lemma load_tasks_table:
  "getitem (sys_tasks (fst (load_tasks w names))) k = Some m \<Longrightarrow> task_modules w k = Loaded m"
  using table_resolution [of "fst (load_tasks w names)" k m] by (simp add: load_tasks_resolution)

subsection \<open>The second pass\<close>

lemma bind_tasks_ok:
  "\<forall>n\<in>set names. \<exists>m. getitem (sys_tasks w) n = Some m \<Longrightarrow>
   bind_tasks w names b =
     Inr (foldl (\<lambda>b n. setitem b n (the_loaded (task_modules w n))) b names)"
  by (induction names arbitrary: b) (auto simp: task_modules_def)

lemma bind_tasks_missing:
  "\<forall>n\<in>set names. task_modules w n \<noteq> Missing \<longrightarrow> (\<exists>m. getitem (sys_tasks w) n = Some m) \<Longrightarrow>
   first_missing (task_modules w) names = Some k \<Longrightarrow>
   bind_tasks w names b = Inl (ImportError k)"
proof (induction names arbitrary: b)
  case Nil
  then show ?case by simp
next
  case (Cons n names)
  show ?case
  proof (cases "task_modules w n = Missing")
    case True
    then have "getitem (sys_tasks w) n = None"
      by (simp add: task_modules_def split: option.splits)
    with True Cons.prems(2) show ?thesis by simp
  next
    case False
    with Cons.prems(1) obtain m where m: "getitem (sys_tasks w) n = Some m" by auto
    from False Cons.prems(2) have "first_missing (task_modules w) names = Some k"
      by (cases "task_modules w n") simp_all
    with Cons.IH [of "setitem b n m"] Cons.prems(1) m show ?thesis by simp
  qed
qed

lemma first_missing_None:
  "first_missing f names = None \<longleftrightarrow> (\<forall>n\<in>set names. f n \<noteq> Missing)"
  by (induction names) (auto split: outcome.splits)

lemma first_raising_None:
  "first_raising f names = None \<longleftrightarrow> (\<forall>n\<in>set names. \<forall>e. f n \<noteq> Raises e)"
  by (induction names) (auto split: outcome.splits)

subsection \<open>The import statement for the task modules\<close>

text \<open>
  The statement raises the exception of the first name whose import raises; when no
  import raises, it raises \<open>ImportError\<close> for the first name whose submodule does not
  exist; otherwise it binds every name to its module.
\<close>

lemma snd_exec_ImportTasks:
  "snd (exec (ImportTasks names) w g) =
     (case first_raising (task_modules w) names of
        Some e \<Rightarrow> Inl e
      | None \<Rightarrow>
          (case first_missing (task_modules w) names of
             Some k \<Rightarrow> Inl (ImportError k)
           | None \<Rightarrow>
               Inr (g\<lparr>modules :=
                      foldl (\<lambda>b n. setitem b n (the_loaded (task_modules w n))) (modules g)
                        names\<rparr>)))"
proof -
  obtain w' r where l: "load_tasks w names = (w', r)" by (cases "load_tasks w names")
  with load_tasks_error [of w names] have r: "first_raising (task_modules w) names = r"
    by simp
  from l load_tasks_resolution_fun [of w names] have res: "task_modules w' = task_modules w"
    by simp
  show ?thesis
  proof (cases r)
    case (Some e)
    with l r show ?thesis by simp
  next
    case None
    with r have nr: "\<forall>n\<in>set names. \<forall>e. task_modules w n \<noteq> Raises e"
      by (simp add: first_raising_None)
    have tab: "\<exists>m. getitem (sys_tasks w') n = Some m"
      if "n \<in> set names" "task_modules w n \<noteq> Missing" for n
    proof -
      from that nr obtain m where "task_modules w n = Loaded m"
        by (cases "task_modules w n") auto
      with load_tasks_loaded [of w names n m] l None that(1) show ?thesis by simp
    qed
    show ?thesis
    proof (cases "first_missing (task_modules w) names")
      case (Some k)
      from tab res have "\<forall>n\<in>set names. task_modules w' n \<noteq> Missing \<longrightarrow>
          (\<exists>m. getitem (sys_tasks w') n = Some m)"
        by simp
      moreover from Some res have "first_missing (task_modules w') names = Some k" by simp
      ultimately have "bind_tasks w' names (modules g) = Inl (ImportError k)"
        by (rule bind_tasks_missing)
      with l None r Some show ?thesis by simp
    next
      case nm: None
      then have "\<forall>n\<in>set names. task_modules w n \<noteq> Missing"
        by (simp add: first_missing_None)
      with tab have "\<forall>n\<in>set names. \<exists>m. getitem (sys_tasks w') n = Some m" by blast
      then have "bind_tasks w' names (modules g) =
          Inr (foldl (\<lambda>b n. setitem b n (the_loaded (task_modules w' n))) (modules g) names)"
        by (rule bind_tasks_ok)
      with l None r nm res show ?thesis by simp
    qed
  qed
qed

lemma fst_exec_ImportTasks: "fst (exec (ImportTasks names) w g) = fst (load_tasks w names)"
  by (cases "load_tasks w names") (auto split: option.splits)

lemma snd_exec_ImportUtils:
  "snd (exec ImportUtils w g) =
     (case scripts_u_utils w of Inl e \<Rightarrow> Inl e | Inr u \<Rightarrow> Inr (g\<lparr>u_utils := Some u\<rparr>))"
  using snd_import_u_utils [of w]
  by (cases "import_u_utils w") (auto split: sum.splits)

lemma fst_exec_ImportUtils: "fst (exec ImportUtils w g) = fst (import_u_utils w)"
  by (cases "import_u_utils w") (auto split: sum.splits)

section \<open>The run of the module\<close>

subsection \<open>What a statement changes of the world\<close>

text \<open>Only the table of loaded modules changes, and what importing gives stays.\<close>

lemma exec_fields:
  "load_u_utils (fst (exec s w g)) = load_u_utils w
   \<and> load_task (fst (exec s w g)) = load_task w
   \<and> invoke_config_levels (fst (exec s w g)) = invoke_config_levels w
   \<and> argv (fst (exec s w g)) = argv w
   \<and> environ (fst (exec s w g)) = environ w"
proof (cases s)
  case ImportUtils
  then show ?thesis
    by (simp add: fst_exec_ImportUtils import_u_utils_def del: exec.simps
          split: option.splits sum.splits)
next
  case (ImportTasks names)
  then show ?thesis by (simp add: fst_exec_ImportTasks load_tasks_fields del: exec.simps)
qed simp_all

lemma exec_resolution:
  "scripts_u_utils (fst (exec s w g)) = scripts_u_utils w
   \<and> task_modules (fst (exec s w g)) = task_modules w"
proof (cases s)
  case ImportUtils
  then show ?thesis
    by (auto simp: fst_exec_ImportUtils import_u_utils_def scripts_u_utils_def task_modules_def
          simp del: exec.simps split: option.splits sum.splits)
next
  case (ImportTasks names)
  have "sys_u_utils (fst (load_tasks w names)) = sys_u_utils w"
    "load_u_utils (fst (load_tasks w names)) = load_u_utils w"
    using load_tasks_fields [of w names] by simp_all
  then have "scripts_u_utils (fst (load_tasks w names)) = scripts_u_utils w"
    by (simp add: scripts_u_utils_def split: option.splits)
  with ImportTasks show ?thesis
    by (simp add: fst_exec_ImportTasks load_tasks_resolution_fun del: exec.simps)
qed simp_all

lemma run_fields:
  "load_u_utils (fst (run ss w g)) = load_u_utils w
   \<and> load_task (fst (run ss w g)) = load_task w
   \<and> invoke_config_levels (fst (run ss w g)) = invoke_config_levels w
   \<and> argv (fst (run ss w g)) = argv w
   \<and> environ (fst (run ss w g)) = environ w"
proof (induction ss arbitrary: w g)
  case Nil
  show ?case by simp
next
  case (Cons s ss)
  obtain w' r where ex: "exec s w g = (w', r)" by (cases "exec s w g")
  with exec_fields [of s w g] have f: "load_u_utils w' = load_u_utils w"
      "load_task w' = load_task w" "invoke_config_levels w' = invoke_config_levels w"
      "argv w' = argv w" "environ w' = environ w"
    by simp_all
  show ?case
  proof (cases r)
    case (Inl e)
    with ex f show ?thesis by simp
  next
    case (Inr g')
    with ex f Cons.IH [of w' g'] show ?thesis by simp
  qed
qed

lemma run_resolution:
  "scripts_u_utils (fst (run ss w g)) = scripts_u_utils w
   \<and> task_modules (fst (run ss w g)) = task_modules w"
proof (induction ss arbitrary: w g)
  case Nil
  show ?case by simp
next
  case (Cons s ss)
  obtain w' r where ex: "exec s w g = (w', r)" by (cases "exec s w g")
  with exec_resolution [of s w g] have f: "scripts_u_utils w' = scripts_u_utils w"
      "task_modules w' = task_modules w"
    by simp_all
  show ?case
  proof (cases r)
    case (Inl e)
    with ex f show ?thesis by simp
  next
    case (Inr g')
    with ex f Cons.IH [of w' g'] show ?thesis by simp
  qed
qed

subsection \<open>What a run reads of the world\<close>

lemma exec_agree:
  assumes "scripts_u_utils w1 = scripts_u_utils w2"
    and "invoke_config_levels w1 = invoke_config_levels w2"
    and "\<And>names n. s = ImportTasks names \<Longrightarrow> n \<in> set names \<Longrightarrow>
           task_modules w1 n = task_modules w2 n"
  shows "snd (exec s w1 g) = snd (exec s w2 g)"
proof (cases s)
  case ImportUtils
  with assms(1) show ?thesis by (simp add: snd_exec_ImportUtils del: exec.simps)
next
  case (ImportTasks names)
  with assms(3) have eq: "\<forall>n\<in>set names. task_modules w1 n = task_modules w2 n" by simp
  then have "first_raising (task_modules w1) names = first_raising (task_modules w2) names"
    by (induction names) (auto split: outcome.splits)
  moreover from eq
  have "first_missing (task_modules w1) names = first_missing (task_modules w2) names"
    by (induction names) (auto split: outcome.splits)
  moreover from eq
  have "foldl (\<lambda>b n. setitem b n (the_loaded (task_modules w1 n))) b names =
        foldl (\<lambda>b n. setitem b n (the_loaded (task_modules w2 n))) b names" for b
    by (induction names arbitrary: b) simp_all
  ultimately show ?thesis using ImportTasks
    by (simp add: snd_exec_ImportTasks del: exec.simps split: option.splits)
next
  case NewConfig
  with assms(2) show ?thesis by (simp add: new_config_def)
qed simp_all

lemma run_agree:
  assumes "scripts_u_utils w1 = scripts_u_utils w2"
    and "invoke_config_levels w1 = invoke_config_levels w2"
    and "\<And>names n. ImportTasks names \<in> set ss \<Longrightarrow> n \<in> set names \<Longrightarrow>
           task_modules w1 n = task_modules w2 n"
  shows "snd (run ss w1 g) = snd (run ss w2 g)"
  using assms
proof (induction ss arbitrary: w1 w2 g)
  case Nil
  show ?case by simp
next
  case (Cons s ss)
  have step: "snd (exec s w1 g) = snd (exec s w2 g)"
  proof (rule exec_agree)
    show "scripts_u_utils w1 = scripts_u_utils w2" by (rule Cons.prems(1))
    show "invoke_config_levels w1 = invoke_config_levels w2" by (rule Cons.prems(2))
    fix names n
    assume "s = ImportTasks names" "n \<in> set names"
    with Cons.prems(3) [of names n] show "task_modules w1 n = task_modules w2 n" by simp
  qed
  obtain v1 r1 where e1: "exec s w1 g = (v1, r1)" by (cases "exec s w1 g")
  obtain v2 r2 where e2: "exec s w2 g = (v2, r2)" by (cases "exec s w2 g")
  from step e1 e2 have r: "r2 = r1" by simp
  from e1 exec_resolution [of s w1 g] exec_fields [of s w1 g]
  have v1: "scripts_u_utils v1 = scripts_u_utils w1" "task_modules v1 = task_modules w1"
    "invoke_config_levels v1 = invoke_config_levels w1"
    by simp_all
  from e2 exec_resolution [of s w2 g] exec_fields [of s w2 g]
  have v2: "scripts_u_utils v2 = scripts_u_utils w2" "task_modules v2 = task_modules w2"
    "invoke_config_levels v2 = invoke_config_levels w2"
    by simp_all
  show ?case
  proof (cases r1)
    case (Inl e)
    with e1 e2 r show ?thesis by simp
  next
    case (Inr g')
    have "snd (run ss v1 g') = snd (run ss v2 g')"
    proof (rule Cons.IH)
      from v1 v2 Cons.prems(1) show "scripts_u_utils v1 = scripts_u_utils v2" by simp
      from v1 v2 Cons.prems(2) show "invoke_config_levels v1 = invoke_config_levels v2"
        by simp
      fix names n
      assume "ImportTasks names \<in> set ss" "n \<in> set names"
      with Cons.prems(3) [of names n] v1 v2 show "task_modules v1 n = task_modules v2 n"
        by simp
    qed
    with e1 e2 r Inr show ?thesis by simp
  qed
qed

text \<open>
  The result of a run can be followed statement by statement in the world the run
  started in.
\<close>

lemma snd_run_Cons:
  "snd (run (s # ss) w g) =
     (case snd (exec s w g) of Inl e \<Rightarrow> Inl e | Inr g' \<Rightarrow> snd (run ss w g'))"
proof -
  obtain w' r where ex: "exec s w g = (w', r)" by (cases "exec s w g")
  show ?thesis
  proof (cases r)
    case (Inl e)
    with ex show ?thesis by simp
  next
    case (Inr g')
    from ex exec_resolution [of s w g] exec_fields [of s w g]
    have "snd (run ss w' g') = snd (run ss w g')"
      by (intro run_agree) simp_all
    with ex Inr show ?thesis by simp
  qed
qed

lemma snd_run_append:
  "snd (run (ss @ ts) w g) =
     (case snd (run ss w g) of Inl e \<Rightarrow> Inl e | Inr g' \<Rightarrow> snd (run ts w g'))"
proof (induction ss arbitrary: g)
  case Nil
  show ?case by simp
next
  case (Cons s ss)
  show ?case
    by (cases "snd (exec s w g)") (simp_all add: snd_run_Cons Cons.IH del: run.simps)
qed

lemma snd_run_Nil: "snd (run [] w g) = Inr g"
  by simp

lemma all_loaded:
  "first_raising f names = None \<and> first_missing f names = None
     \<longleftrightarrow> (\<forall>n\<in>set names. \<exists>m. f n = Loaded m)"
proof (induction names)
  case Nil
  show ?case by simp
next
  case (Cons n names)
  then show ?case by (cases "f n") auto
qed

subsection \<open>Lines 2 to 12: up to \<open>ns.configure(cfg)\<close>\<close>

lemma configured_stage:
  assumes u: "scripts_u_utils w = Inr u"
    and ok: "\<forall>n\<in>set task_names. \<exists>m. task_modules w n = Loaded m"
    and d0: "new_config w = Inr d0"
    and nd: "\<not> holds_dict d0 ''root_dir''" "\<not> holds_dict d0 ''vscode_dir''"
      "\<not> holds_dict d0 ''cfg_dir''"
  shows "snd (run (take 8 module_body) w start) =
     Inr \<lparr>u_utils = Some u,
          modules = foldl (\<lambda>b n. setitem b n (the_loaded (task_modules w n))) (modules start)
                      task_names,
          ns = Some (Collection None [] []
                 (setitem (setitem (setitem d0 ''root_dir'' (PStr (UBXLIB_DIR u)))
                    ''vscode_dir'' (PStr (UBXLIB_DIR u @ ''/.vscode'')))
                    ''cfg_dir'' (PStr (AUTOMATION_DIR u))) True),
          cfg = Some (setitem (setitem (setitem d0 ''root_dir'' (PStr (UBXLIB_DIR u)))
                    ''vscode_dir'' (PStr (UBXLIB_DIR u @ ''/.vscode'')))
                    ''cfg_dir'' (PStr (AUTOMATION_DIR u)))\<rparr>"
proof -
  from d0 have "distinct (map fst d0)" by (rule new_config_distinct)
  then have dist: "distinct (map fst (setitem (setitem (setitem d0 ''root_dir''
                        (PStr (UBXLIB_DIR u)))
                        ''vscode_dir'' (PStr (UBXLIB_DIR u @ ''/.vscode'')))
                        ''cfg_dir'' (PStr (AUTOMATION_DIR u))))"
    by (intro distinct_setitem)
  from ok have fr: "first_raising (task_modules w) task_names = None"
    and fm: "first_missing (task_modules w) task_names = None"
    using all_loaded [of "task_modules w" task_names] by simp_all
  have body: "take 8 module_body =
      [ImportUtils, ImportTasks task_names, NewCollection, NewConfig,
       SetItem ''root_dir'' UBXLIB_DIR,
       SetItem ''vscode_dir'' (\<lambda>u. UBXLIB_DIR u @ ''/.vscode''),
       SetItem ''cfg_dir'' AUTOMATION_DIR, Configure]"
    by (simp add: module_body_def)
  obtain a b c d where start: "start = \<lparr>u_utils = a, modules = b, ns = c, cfg = d\<rparr>"
    by (cases start) simp
  show ?thesis
    unfolding body start
    using u d0 nd dist fr fm
    by (simp add: snd_run_Cons snd_run_Nil snd_exec_ImportUtils snd_exec_ImportTasks
          new_collection_def configure_fresh config_setitem_str holds_dict_setitem
          del: run.simps exec.simps(1,2))
qed

lemma stage_fail_utils:
  "scripts_u_utils w = Inl e \<Longrightarrow> snd (run (take 8 module_body) w start) = Inl e"
  by (simp add: module_body_def snd_run_Cons snd_exec_ImportUtils del: run.simps exec.simps(1,2))

lemma stage_fail_raising:
  "scripts_u_utils w = Inr u \<Longrightarrow> first_raising (task_modules w) task_names = Some e \<Longrightarrow>
   snd (run (take 8 module_body) w start) = Inl e"
  by (simp add: module_body_def snd_run_Cons snd_exec_ImportUtils snd_exec_ImportTasks
        del: run.simps exec.simps(1,2))

lemma stage_fail_missing:
  "scripts_u_utils w = Inr u \<Longrightarrow> first_raising (task_modules w) task_names = None \<Longrightarrow>
   first_missing (task_modules w) task_names = Some k \<Longrightarrow>
   snd (run (take 8 module_body) w start) = Inl (ImportError k)"
  by (simp add: module_body_def snd_run_Cons snd_exec_ImportUtils snd_exec_ImportTasks
        del: run.simps exec.simps(1,2))

lemma stage_fail_config:
  "scripts_u_utils w = Inr u \<Longrightarrow> first_raising (task_modules w) task_names = None \<Longrightarrow>
   first_missing (task_modules w) task_names = None \<Longrightarrow> new_config w = Inl e \<Longrightarrow>
   snd (run (take 8 module_body) w start) = Inl e"
  by (simp add: module_body_def snd_run_Cons snd_run_Nil snd_exec_ImportUtils
        snd_exec_ImportTasks del: run.simps exec.simps(1,2))

lemma stage_fail_setitem:
  "scripts_u_utils w = Inr u \<Longrightarrow> first_raising (task_modules w) task_names = None \<Longrightarrow>
   first_missing (task_modules w) task_names = None \<Longrightarrow> new_config w = Inr d0 \<Longrightarrow>
   holds_dict d0 ''root_dir'' \<or> holds_dict d0 ''vscode_dir'' \<or> holds_dict d0 ''cfg_dir'' \<Longrightarrow>
   isl (snd (run (take 8 module_body) w start))"
  by (auto simp: module_body_def snd_run_Cons snd_run_Nil snd_exec_ImportUtils
        snd_exec_ImportTasks config_setitem_str holds_dict_setitem
        simp del: run.simps exec.simps(1,2))

lemma stage_Inr:
  assumes "snd (run (take 8 module_body) w start) = Inr g"
  shows "\<exists>u d0. scripts_u_utils w = Inr u
           \<and> (\<forall>n\<in>set task_names. \<exists>m. task_modules w n = Loaded m)
           \<and> new_config w = Inr d0
           \<and> \<not> holds_dict d0 ''root_dir'' \<and> \<not> holds_dict d0 ''vscode_dir''
           \<and> \<not> holds_dict d0 ''cfg_dir''"
proof (cases "scripts_u_utils w")
  case (Inl e)
  with assms show ?thesis by (simp add: stage_fail_utils)
next
  case u: (Inr u)
  show ?thesis
  proof (cases "first_raising (task_modules w) task_names")
    case (Some e)
    with assms u show ?thesis by (simp add: stage_fail_raising)
  next
    case fr: None
    show ?thesis
    proof (cases "first_missing (task_modules w) task_names")
      case (Some k)
      with assms u fr show ?thesis by (simp add: stage_fail_missing)
    next
      case fm: None
      from fr fm have ok: "\<forall>n\<in>set task_names. \<exists>m. task_modules w n = Loaded m"
        using all_loaded [of "task_modules w" task_names] by simp
      show ?thesis
      proof (cases "new_config w")
        case (Inl e)
        with assms u fr fm show ?thesis by (simp add: stage_fail_config)
      next
        case d0: (Inr d0)
        from assms stage_fail_setitem [OF u fr fm d0, where start = start]
        have "\<not> (holds_dict d0 ''root_dir'' \<or> holds_dict d0 ''vscode_dir''
                 \<or> holds_dict d0 ''cfg_dir'')"
          by auto
        with u ok d0 show ?thesis by simp
      qed
    qed
  qed
qed

subsection \<open>Lines 13 to 19: the seven \<open>add_collection\<close> calls\<close>

lemma from_module_collection: "from_module n m = Inr (module_collection n m)"
  using from_module_Inr [of n m] by (auto simp: module_collection_def)

lemma add_collection_eq:
  assumes "tasks c = []" and "auto_dash_names c = True" and "n \<noteq> []"
  shows "add_collection c n m =
     Inr (Collection (name c) []
            (setitem (collections c) (registered_name n m) (module_collection n m))
            (configuration c) True)"
proof -
  from add_collection_root [OF assms(1,3), of m] obtain coll nm
    where "from_module n m = Inr coll" "name coll = Some nm"
      and "add_collection c n m =
             Inr (Collection (name c) [] (setitem (collections c)
                    (transform (auto_dash_names c) nm) coll)
                    (configuration c) (auto_dash_names c))"
    by blast
  with assms(2) show ?thesis
    by (simp add: registered_name_def module_collection_def)
qed

lemma add_stage:
  assumes "ns g = Some c" and "tasks c = []" and "auto_dash_names c = True"
    and "\<forall>n\<in>set names. n \<noteq> [] \<and> getitem (modules g) n = Some (f n)"
  shows "snd (run (map AddCollection names) w g) =
     Inr (g\<lparr>ns := Some (Collection (name c) []
             (foldl (\<lambda>acc n. setitem acc (registered_name n (f n)) (module_collection n (f n)))
                (collections c) names)
             (configuration c) True)\<rparr>)"
  using assms
proof (induction names arbitrary: g c)
  case Nil
  then show ?case by (cases c) simp
next
  case (Cons n names)
  let ?c' = "Collection (name c) []
               (setitem (collections c) (registered_name n (f n)) (module_collection n (f n)))
               (configuration c) True"
  from Cons.prems have n: "n \<noteq> []" "getitem (modules g) n = Some (f n)" by simp_all
  with Cons.prems(1-3) have ex: "snd (exec (AddCollection n) w g) = Inr (g\<lparr>ns := Some ?c'\<rparr>)"
    by (simp add: add_collection_eq)
  have "snd (run (map AddCollection names) w (g\<lparr>ns := Some ?c'\<rparr>)) =
     Inr (g\<lparr>ns := Some ?c'\<rparr>\<lparr>ns := Some (Collection (name ?c') []
             (foldl (\<lambda>acc n. setitem acc (registered_name n (f n)) (module_collection n (f n)))
                (collections ?c') names)
             (configuration ?c') True)\<rparr>)"
    using Cons.prems(4) by (intro Cons.IH) simp_all
  with ex show ?case by (simp add: snd_run_Cons del: run.simps exec.simps)
qed

lemma adds_after_configure: "drop 8 module_body = map AddCollection task_names"
  by (simp add: module_body_def task_names_def)

lemma exec_add_keeps:
  "snd (exec (AddCollection n) w g) = Inr g' \<Longrightarrow>
   cfg g' = cfg g \<and> u_utils g' = u_utils g \<and> modules g' = modules g
   \<and> map_option configuration (ns g') = map_option configuration (ns g)"
  by (auto simp: add_collection_def Let_def split: option.splits sum.splits if_splits)

lemma run_adds_keep:
  "snd (run (map AddCollection names) w g) = Inr g' \<Longrightarrow>
   cfg g' = cfg g \<and> u_utils g' = u_utils g \<and> modules g' = modules g
   \<and> map_option configuration (ns g') = map_option configuration (ns g)"
proof (induction names arbitrary: g)
  case Nil
  then show ?case by simp
next
  case (Cons n names)
  from Cons.prems obtain g1 where ex: "snd (exec (AddCollection n) w g) = Inr g1"
      and rest: "snd (run (map AddCollection names) w g1) = Inr g'"
    by (cases "snd (exec (AddCollection n) w g)")
      (simp_all add: snd_run_Cons del: run.simps exec.simps)
  from exec_add_keeps [OF ex] Cons.IH [OF rest] show ?case by simp
qed

lemma no_add_before_configure:
  "i < 8 \<Longrightarrow> module_body ! i \<noteq> AddCollection n"
  by (simp add: module_body_def nth_Cons split: nat.splits)

lemma configure_position:
  "j < length module_body \<Longrightarrow> module_body ! j = Configure \<Longrightarrow> j = 7"
  by (simp add: module_body_def nth_Cons split: nat.splits)

lemma setitems_before_configure:
  "p < length module_body \<Longrightarrow> module_body ! p = SetItem k rhs \<Longrightarrow> p < 7"
  by (simp add: module_body_def nth_Cons split: nat.splits)

subsection \<open>The whole module\<close>

lemma run_stages:
  "snd (run module_body w start) =
     (case snd (run (take 8 module_body) w start) of
        Inl e \<Rightarrow> Inl e
      | Inr g' \<Rightarrow> snd (run (map AddCollection task_names) w g'))"
proof -
  have "take 8 module_body @ map AddCollection task_names = module_body"
    using append_take_drop_id [of 8 module_body] by (simp only: adds_after_configure)
  with snd_run_append [of "take 8 module_body" "map AddCollection task_names" w start]
  show ?thesis by simp
qed

lemma modules_bound:
  "n \<in> set task_names \<Longrightarrow>
   getitem (foldl (\<lambda>b n. setitem b n (f n)) b0 task_names) n = Some (f n)"
  by (auto simp: task_names_def getitem_setitem)

lemma task_names_nonempty: "n \<in> set task_names \<Longrightarrow> n \<noteq> []"
  by (auto simp: task_names_def)

text \<open>
  The module runs to its end when its imports give modules and the library loads no dict
  under one of the three keys; the names it binds are then these.
\<close>

lemma run_success:
  assumes u: "scripts_u_utils w = Inr u"
    and ok: "\<forall>n\<in>set task_names. \<exists>m. task_modules w n = Loaded m"
    and d0: "new_config w = Inr d0"
    and nd: "\<not> holds_dict d0 ''root_dir''" "\<not> holds_dict d0 ''vscode_dir''"
      "\<not> holds_dict d0 ''cfg_dir''"
  shows "snd (run module_body w start) =
     Inr \<lparr>u_utils = Some u,
        modules = foldl (\<lambda>b n. setitem b n (the_loaded (task_modules w n))) (modules start)
                    task_names,
        ns = Some (Collection None []
               (foldl (\<lambda>acc n. setitem acc
                                 (registered_name n (the_loaded (task_modules w n)))
                                 (module_collection n (the_loaded (task_modules w n))))
                  [] task_names)
               (setitem (setitem (setitem d0 ''root_dir'' (PStr (UBXLIB_DIR u)))
                  ''vscode_dir'' (PStr (UBXLIB_DIR u @ ''/.vscode'')))
                  ''cfg_dir'' (PStr (AUTOMATION_DIR u)))
               True),
        cfg = Some (setitem (setitem (setitem d0 ''root_dir'' (PStr (UBXLIB_DIR u)))
                  ''vscode_dir'' (PStr (UBXLIB_DIR u @ ''/.vscode'')))
                  ''cfg_dir'' (PStr (AUTOMATION_DIR u)))\<rparr>"
proof -
  let ?d = "setitem (setitem (setitem d0 ''root_dir'' (PStr (UBXLIB_DIR u)))
                  ''vscode_dir'' (PStr (UBXLIB_DIR u @ ''/.vscode'')))
                  ''cfg_dir'' (PStr (AUTOMATION_DIR u))"
  let ?ms = "foldl (\<lambda>b n. setitem b n (the_loaded (task_modules w n))) (modules start) task_names"
  let ?g8 = "\<lparr>u_utils = Some u, modules = ?ms, ns = Some (Collection None [] [] ?d True),
              cfg = Some ?d\<rparr>"
  have st: "snd (run (take 8 module_body) w start) = Inr ?g8"
    by (rule configured_stage [OF u ok d0 nd])
  have "snd (run (map AddCollection task_names) w ?g8) =
     Inr (?g8\<lparr>ns := Some (Collection (name (Collection None [] [] ?d True)) []
             (foldl (\<lambda>acc n. setitem acc
                                 (registered_name n (the_loaded (task_modules w n)))
                                 (module_collection n (the_loaded (task_modules w n))))
                (collections (Collection None [] [] ?d True)) task_names)
             (configuration (Collection None [] [] ?d True)) True)\<rparr>)"
    by (rule add_stage) (simp_all add: modules_bound task_names_nonempty)
  with st show ?thesis by (simp add: run_stages)
qed

lemma construct_Inr:
  assumes "snd (construct w) = Inr g"
  shows "\<exists>u d0. scripts_u_utils w = Inr u
           \<and> (\<forall>n\<in>set task_names. \<exists>m. task_modules w n = Loaded m)
           \<and> new_config w = Inr d0
           \<and> \<not> holds_dict d0 ''root_dir'' \<and> \<not> holds_dict d0 ''vscode_dir''
           \<and> \<not> holds_dict d0 ''cfg_dir''"
proof -
  from assms obtain g8 where "snd (run (take 8 module_body) w empty_globals) = Inr g8"
    by (cases "snd (run (take 8 module_body) w empty_globals)")
      (simp_all add: construct_def run_stages)
  then show ?thesis by (rule stage_Inr)
qed

lemma bound_modules:
  "foldl (\<lambda>b n. setitem b n (f n)) [] task_names = map (\<lambda>n. (n, f n)) task_names"
  by (simp add: task_names_def)

lemma construct_success:
  assumes u: "scripts_u_utils w = Inr u"
    and ok: "\<forall>n\<in>set task_names. \<exists>m. task_modules w n = Loaded m"
    and d0: "new_config w = Inr d0"
    and nd: "\<not> holds_dict d0 ''root_dir''" "\<not> holds_dict d0 ''vscode_dir''"
      "\<not> holds_dict d0 ''cfg_dir''"
  shows "snd (construct w) =
     Inr \<lparr>u_utils = Some u,
        modules = map (\<lambda>n. (n, the_loaded (task_modules w n))) task_names,
        ns = Some (Collection None []
               (foldl (\<lambda>acc n. setitem acc
                                 (registered_name n (the_loaded (task_modules w n)))
                                 (module_collection n (the_loaded (task_modules w n))))
                  [] task_names)
               (setitem (setitem (setitem d0 ''root_dir'' (PStr (UBXLIB_DIR u)))
                  ''vscode_dir'' (PStr (UBXLIB_DIR u @ ''/.vscode'')))
                  ''cfg_dir'' (PStr (AUTOMATION_DIR u)))
               True),
        cfg = Some (setitem (setitem (setitem d0 ''root_dir'' (PStr (UBXLIB_DIR u)))
                  ''vscode_dir'' (PStr (UBXLIB_DIR u @ ''/.vscode'')))
                  ''cfg_dir'' (PStr (AUTOMATION_DIR u)))\<rparr>"
  unfolding construct_def run_success [OF u ok d0 nd]
  by (simp add: empty_globals_def bound_modules)

lemma construct_cfg:
  assumes "snd (construct w) = Inr g"
  shows "\<exists>u d c. scripts_u_utils w = Inr u \<and> cfg g = Some d \<and> ns g = Some c
           \<and> configuration c = d
           \<and> getitem d ''root_dir'' = Some (PStr (UBXLIB_DIR u))
           \<and> getitem d ''vscode_dir'' = Some (PStr (UBXLIB_DIR u @ ''/.vscode''))
           \<and> getitem d ''cfg_dir'' = Some (PStr (AUTOMATION_DIR u))"
proof -
  from assms obtain u d0 where u: "scripts_u_utils w = Inr u"
      and ok: "\<forall>n\<in>set task_names. \<exists>m. task_modules w n = Loaded m"
      and d0: "new_config w = Inr d0"
      and nd: "\<not> holds_dict d0 ''root_dir''" "\<not> holds_dict d0 ''vscode_dir''"
        "\<not> holds_dict d0 ''cfg_dir''"
    using construct_Inr by blast
  from assms construct_success [OF u ok d0 nd] u show ?thesis
    by (auto simp: getitem_setitem)
qed

lemma construct_collections:
  assumes "snd (construct w) = Inr g"
  shows "\<exists>u c. u_utils g = Some u \<and> scripts_u_utils w = Inr u \<and> ns g = Some c \<and> tasks c = []
           \<and> modules g = map (\<lambda>n. (n, the_loaded (task_modules w n))) task_names
           \<and> (\<forall>n\<in>set task_names. task_modules w n = Loaded (the_loaded (task_modules w n)))
           \<and> collections c =
               foldl (\<lambda>acc n. setitem acc
                                 (registered_name n (the_loaded (task_modules w n)))
                                 (module_collection n (the_loaded (task_modules w n))))
                  [] task_names"
proof -
  from assms obtain u d0 where u: "scripts_u_utils w = Inr u"
      and ok: "\<forall>n\<in>set task_names. \<exists>m. task_modules w n = Loaded m"
      and d0: "new_config w = Inr d0"
      and nd: "\<not> holds_dict d0 ''root_dir''" "\<not> holds_dict d0 ''vscode_dir''"
        "\<not> holds_dict d0 ''cfg_dir''"
    using construct_Inr by blast
  from ok have "\<forall>n\<in>set task_names. task_modules w n = Loaded (the_loaded (task_modules w n))"
    by fastforce
  with assms construct_success [OF u ok d0 nd] u show ?thesis
    by auto
qed

text \<open>What the namespace holds for plain modules.\<close>

lemma plain_module:
  assumes "own_collection m = None"
  shows "module_collection n m =
           Collection (Some (transform True n))
             (foldl (\<lambda>ks t. setkey ks (transform True t)) [] (mod_tasks m)) [] [] True"
    and "registered_name n m = transform True (transform True n)"
  using assms by (simp_all add: module_collection_def registered_name_def from_module_plain)

lemma plain_collections:
  assumes "\<forall>n\<in>set task_names. own_collection (f n) = None"
  shows "foldl (\<lambda>acc n. setitem acc (registered_name n (f n)) (module_collection n (f n)))
           [] task_names =
         map (\<lambda>n. (transform True n,
                Collection (Some (transform True n))
                  (foldl (\<lambda>ks t. setkey ks (transform True t)) [] (mod_tasks (f n)))
                  [] [] True)) task_names"
  using assms by (simp add: task_names_def plain_module transform_names)

text \<open>Every entry of the namespace is the collection of one of the modules.\<close>

lemma foldl_setitem_set:
  "set (foldl (\<lambda>acc n. setitem acc (k n) (v n)) d names)
     \<subseteq> set d \<union> (\<lambda>n. (k n, v n)) ` set names"
proof (induction names arbitrary: d)
  case Nil
  show ?case by simp
next
  case (Cons n names)
  from Cons.IH [of "setitem d (k n) (v n)"] set_setitem [of d "k n" "v n"]
  show ?case by auto
qed



lemma rebound_modules:
  "foldl (\<lambda>b n. setitem b n (f n)) (map (\<lambda>n. (n, f n)) task_names) task_names =
     map (\<lambda>n. (n, f n)) task_names"
  by (simp add: task_names_def)

subsection \<open>The world after the module\<close>






lemma import_u_utils_keeps:
  "sys_u_utils w = Some u \<Longrightarrow> sys_u_utils (fst (import_u_utils w)) = Some u"
  by (simp add: import_u_utils_def)

lemma import_u_utils_fields:
  "load_u_utils (fst (import_u_utils w)) = load_u_utils w
   \<and> load_task (fst (import_u_utils w)) = load_task w
   \<and> invoke_config_levels (fst (import_u_utils w)) = invoke_config_levels w
   \<and> argv (fst (import_u_utils w)) = argv w
   \<and> environ (fst (import_u_utils w)) = environ w"
  by (simp add: import_u_utils_def split: option.splits sum.splits)





lemma construct_fields:
  "load_u_utils (fst (construct w)) = load_u_utils w
   \<and> load_task (fst (construct w)) = load_task w
   \<and> invoke_config_levels (fst (construct w)) = invoke_config_levels w
   \<and> argv (fst (construct w)) = argv w
   \<and> environ (fst (construct w)) = environ w"
  unfolding construct_def by (rule run_fields)

lemma construct_resolution:
  "scripts_u_utils (fst (construct w)) = scripts_u_utils w
   \<and> task_modules (fst (construct w)) = task_modules w"
  unfolding construct_def by (rule run_resolution)


subsection \<open>What a construction reads of the world\<close>

lemma construct_determined:
  assumes "scripts_u_utils w1 = scripts_u_utils w2"
    and "\<forall>n\<in>set task_names. task_modules w1 n = task_modules w2 n"
    and "invoke_config_levels w1 = invoke_config_levels w2"
  shows "snd (run module_body w1 start) = snd (run module_body w2 start)"
  using assms(1,3)
proof (rule run_agree)
  fix names n
  assume "ImportTasks names \<in> set module_body" "n \<in> set names"
  then have "n \<in> set task_names" by (auto simp: module_body_def)
  with assms(2) show "task_modules w1 n = task_modules w2 n" by simp
qed

subsection \<open>The concrete worlds\<close>

lemma example_run: "snd (construct example_world) = Inr example_globals"
  by code_simp

lemma example_configured_run:
  "snd (run (take 8 module_body) example_world empty_globals) = Inr example_configured"
  by code_simp

lemma example_echo_run: "\<exists>g. snd (construct example_world_echo) = Inr g"
proof -
  have "\<not> isl (snd (construct example_world_echo))" by code_simp
  then show ?thesis by (cases "snd (construct example_world_echo)") simp_all
qed

lemma example_table:
  "sys_tasks (fst (construct example_world)) = modules example_globals"
  "sys_u_utils (fst (construct example_world)) = u_utils example_globals"
  by code_simp+

section \<open>The claims\<close>

text \<open>
  C1, as the module behaves: after a construction in which each of the seven task
  modules is a plain module of tasks (it brings no collection of its own under the name
  \<open>ns\<close> or \<open>namespace\<close>) and defines at least one task, the namespace holds exactly seven
  collections, in this order, under the names \<open>nrfconnect\<close>, \<open>nrf5\<close>, \<open>stm32cube\<close>,
  \<open>esp-idf\<close>, \<open>arduino\<close>, \<open>automation\<close> and \<open>linux\<close>, and each of them has a task. The
  module \<open>esp_idf\<close> is registered as \<open>esp-idf\<close>: the library turns the underscore of a name
  into a dash (\<open>auto_dash_names\<close>, which \<open>Collection()\<close> leaves at its default).
\<close>

theorem collection_names_dashed:
  assumes g: "snd (construct w) = Inr g"
    and plain: "\<forall>n\<in>set task_names. \<forall>m. task_modules w n = Loaded m \<longrightarrow>
                  own_collection m = None \<and> mod_tasks m \<noteq> []"
  shows "\<exists>c. ns g = Some c
           \<and> map fst (collections c) =
               [''nrfconnect'', ''nrf5'', ''stm32cube'', ''esp-idf'', ''arduino'',
                ''automation'', ''linux'']
           \<and> (\<forall>sub\<in>set (map snd (collections c)). tasks sub \<noteq> [])"
proof -
  let ?f = "\<lambda>n. the_loaded (task_modules w n)"
  from construct_collections [OF g] obtain c where c: "ns g = Some c"
    and ok: "\<forall>n\<in>set task_names. task_modules w n = Loaded (?f n)"
    and subs: "collections c =
               foldl (\<lambda>acc n. setitem acc (registered_name n (?f n)) (module_collection n (?f n)))
                  [] task_names"
    by blast
  from ok plain have p: "\<forall>n\<in>set task_names. own_collection (?f n) = None"
    and t: "\<forall>n\<in>set task_names. mod_tasks (?f n) \<noteq> []"
    by blast+
  from subs plain_collections [of ?f, OF p]
  have eq: "collections c =
         map (\<lambda>n. (transform True n,
                Collection (Some (transform True n))
                  (foldl (\<lambda>ks t. setkey ks (transform True t)) [] (mod_tasks (?f n)))
                  [] [] True)) task_names"
    by simp
  from eq dashed_names have "map fst (collections c) =
      [''nrfconnect'', ''nrf5'', ''stm32cube'', ''esp-idf'', ''arduino'', ''automation'',
       ''linux'']"
    by (simp add: comp_def)
  moreover from eq t have "\<forall>sub\<in>set (map snd (collections c)). tasks sub \<noteq> []"
    by (simp add: comp_def foldl_setkey_nonempty)
  ultimately show ?thesis using c by simp
qed

theorem collection_names_dashed_witness:
  "snd (construct example_world) = Inr example_globals
   \<and> task_modules example_world ''esp_idf'' = Loaded example_module
   \<and> own_collection example_module = None
   \<and> map fst (collections example_ns) =
       [''nrfconnect'', ''nrf5'', ''stm32cube'', ''esp-idf'', ''arduino'', ''automation'',
        ''linux'']
   \<and> list_all (\<lambda>sub. tasks sub \<noteq> []) (map snd (collections example_ns))"
proof -
  have plain: "\<forall>n\<in>set task_names. \<forall>m. task_modules example_world n = Loaded m \<longrightarrow>
      own_collection m = None \<and> mod_tasks m \<noteq> []"
    by (simp add: example_world_def task_modules_def getitem_def example_module_def
          own_collection_def)
  from collection_names_dashed [OF example_run plain] obtain c
    where c: "ns example_globals = Some c"
      and names: "map fst (collections c) =
        [''nrfconnect'', ''nrf5'', ''stm32cube'', ''esp-idf'', ''arduino'', ''automation'',
         ''linux'']"
      and ne: "\<forall>sub\<in>set (map snd (collections c)). tasks sub \<noteq> []"
    by auto
  from c have "c = example_ns" by (simp add: example_globals_def)
  with names ne example_run show ?thesis
    by (simp add: list_all_iff example_world_def task_names_def task_modules_def getitem_def
          example_module_def own_collection_def)
qed

text \<open>
  C1, as it is stated, fails: in the concrete world every import succeeds and every
  module defines tasks, yet no collection of the namespace is called \<open>esp_idf\<close>.
\<close>

theorem esp_idf_name_counterexample:
  "snd (construct example_world) = Inr example_globals
   \<and> ns example_globals = Some example_ns
   \<and> ''esp_idf'' \<notin> set (map fst (collections example_ns))"
  using example_run by (simp add: example_globals_def example_ns_def)

text \<open>
  C2: after construction the value of the configuration under \<open>vscode_dir\<close> is the value
  under \<open>root_dir\<close> followed by \<open>/.vscode\<close>.
\<close>

theorem vscode_dir_concat:
  assumes "snd (construct w) = Inr g"
  shows "\<exists>d r. cfg g = Some d \<and> getitem d ''root_dir'' = Some (PStr r)
           \<and> getitem d ''vscode_dir'' = Some (PStr (r @ ''/.vscode''))"
  using construct_cfg [OF assms] by blast

theorem vscode_dir_concat_witness:
  "snd (construct example_world) = Inr example_globals
   \<and> getitem example_cfg ''root_dir'' = Some (PStr ''/ubxlib'')
   \<and> getitem example_cfg ''vscode_dir'' = Some (PStr ''/ubxlib/.vscode'')"
proof -
  from vscode_dir_concat [OF example_run] obtain d r
    where d: "cfg example_globals = Some d"
      and r: "getitem d ''root_dir'' = Some (PStr r)"
      and v: "getitem d ''vscode_dir'' = Some (PStr (r @ ''/.vscode''))"
    by blast
  from d have "d = example_cfg" by (simp add: example_globals_def)
  moreover with r have "r = ''/ubxlib''" by (simp add: example_cfg_def getitem_def)
  ultimately show ?thesis using r v example_run by simp
qed




text \<open>
  C4, as the module behaves: after construction the configuration has a string under
  each of \<open>root_dir\<close>, \<open>vscode_dir\<close> and \<open>cfg_dir\<close>. The one under \<open>vscode_dir\<close> is never
  empty. The module copies the two directories of the utility module as they are: the
  strings under \<open>root_dir\<close> and \<open>cfg_dir\<close> are empty exactly when \<open>UBXLIB_DIR\<close> and
  \<open>AUTOMATION_DIR\<close> are.
\<close>

theorem required_keys_strings:
  assumes "snd (construct w) = Inr g"
  shows "\<exists>u d r v a. scripts_u_utils w = Inr u \<and> cfg g = Some d
           \<and> getitem d ''root_dir'' = Some (PStr r) \<and> (r = [] \<longleftrightarrow> UBXLIB_DIR u = [])
           \<and> getitem d ''vscode_dir'' = Some (PStr v) \<and> v \<noteq> []
           \<and> getitem d ''cfg_dir'' = Some (PStr a) \<and> (a = [] \<longleftrightarrow> AUTOMATION_DIR u = [])"
  using construct_cfg [OF assms] by auto

theorem required_keys_strings_witness:
  "snd (construct example_world) = Inr example_globals
   \<and> getitem example_cfg ''root_dir'' \<noteq> Some (PStr [])
   \<and> getitem example_cfg ''vscode_dir'' \<noteq> Some (PStr [])
   \<and> getitem example_cfg ''cfg_dir'' \<noteq> Some (PStr [])"
proof -
  have u: "scripts_u_utils example_world =
      Inr \<lparr>UBXLIB_DIR = ''/ubxlib'',
           AUTOMATION_DIR = ''/ubxlib/port/platform/common/automation''\<rparr>"
    by code_simp
  from required_keys_strings [OF example_run] u obtain d r v a
    where "cfg example_globals = Some d"
      and "getitem d ''root_dir'' = Some (PStr r)" "r \<noteq> []"
      and "getitem d ''vscode_dir'' = Some (PStr v)" "v \<noteq> []"
      and "getitem d ''cfg_dir'' = Some (PStr a)" "a \<noteq> []"
    by auto
  then show ?thesis using example_run by (auto simp: example_globals_def)
qed

text \<open>
  C4, as it is stated, fails: over a utility module with two empty directories the
  construction returns, and the strings under \<open>root_dir\<close> and \<open>cfg_dir\<close> are empty.
\<close>

theorem empty_dirs_counterexample:
  "map_sum id cfg (snd (construct world_empty_dirs)) = Inr (Some example_cfg_empty_dirs)
   \<and> getitem example_cfg_empty_dirs ''root_dir'' = Some (PStr [])
   \<and> getitem example_cfg_empty_dirs ''cfg_dir'' = Some (PStr [])"
  by code_simp

text \<open>
  C5: a first construction changes the world (the modules it imports are loaded
  afterwards) and binds the names of the module; a second construction gives the same
  result all the same, be it a fresh import in the world the first one leaves or a run
  of the module over the names the first one has bound.
\<close>

theorem construct_idempotent:
  "snd (construct (fst (construct w))) = snd (construct w)
   \<and> (snd (construct w) = Inr g \<longrightarrow> snd (run module_body (fst (construct w)) g) = Inr g)"
proof (intro conjI impI)
  have res: "scripts_u_utils (fst (construct w)) = scripts_u_utils w"
    "task_modules (fst (construct w)) = task_modules w"
    "invoke_config_levels (fst (construct w)) = invoke_config_levels w"
    using construct_resolution [of w] construct_fields [of w] by simp_all
  then have agree: "snd (run module_body (fst (construct w)) start) =
      snd (run module_body w start)" for start
    by (intro construct_determined) simp_all
  from agree [of empty_globals]
  show "snd (construct (fst (construct w))) = snd (construct w)"
    by (simp add: construct_def)
  assume g: "snd (construct w) = Inr g"
  let ?f = "\<lambda>n. the_loaded (task_modules w n)"
  from construct_Inr [OF g] obtain u d0 where u: "scripts_u_utils w = Inr u"
      and ok: "\<forall>n\<in>set task_names. \<exists>m. task_modules w n = Loaded m"
      and d0: "new_config w = Inr d0"
      and nd: "\<not> holds_dict d0 ''root_dir''" "\<not> holds_dict d0 ''vscode_dir''"
        "\<not> holds_dict d0 ''cfg_dir''"
    by blast
  from g construct_success [OF u ok d0 nd]
  have ms: "modules g = map (\<lambda>n. (n, ?f n)) task_names" by auto
  from run_success [OF u ok d0 nd, of g] ms
  have "snd (run module_body w g) = snd (construct w)"
    by (simp add: construct_success [OF u ok d0 nd] rebound_modules)
  with g agree [of g] show "snd (run module_body (fst (construct w)) g) = Inr g"
    by simp
qed

theorem construct_idempotent_witness:
  "snd (construct (fst (construct example_world))) = Inr example_globals
   \<and> snd (run module_body (fst (construct example_world)) example_globals) =
       Inr example_globals
   \<and> sys_tasks (fst (construct example_world)) \<noteq> sys_tasks example_world"
proof -
  have "sys_tasks (fst (construct example_world)) \<noteq> sys_tasks example_world"
    by code_simp
  with construct_idempotent [of example_world example_globals] example_run
  show ?thesis by simp
qed

text \<open>
  C6, as the module behaves: the module assigns to the configuration three times, once
  for each of \<open>root_dir\<close>, \<open>vscode_dir\<close> and \<open>cfg_dir\<close>, and every assignment stands before
  \<open>ns.configure(cfg)\<close>. From that statement on, no statement of the module changes the
  configuration, be it \<open>cfg\<close> or the one the namespace holds, and after the construction
  both have the same strings under the three keys. The namespace holds a merged copy:
  every sub-collection is what \<open>Collection.from_module\<close> makes of one of the modules, so
  its configuration is that of its module and not \<open>cfg\<close>, and an item assignment to
  \<open>cfg\<close> after the construction leaves the namespace as it is.
\<close>

theorem configuration_settled:
  assumes j: "j < length module_body"
    and conf: "module_body ! j = Configure"
    and i: "j < i"
    and gi: "snd (run (take i module_body) w empty_globals) = Inr gi"
    and g: "snd (construct w) = Inr g"
  shows "(\<forall>p k rhs. p < length module_body \<and> module_body ! p = SetItem k rhs \<longrightarrow> p < j)
       \<and> concat (map (\<lambda>s. case s of SetItem k rhs \<Rightarrow> [k] | _ \<Rightarrow> []) module_body) =
           [''root_dir'', ''vscode_dir'', ''cfg_dir'']
       \<and> cfg gi = cfg g
       \<and> map_option configuration (ns gi) = map_option configuration (ns g)
       \<and> (\<exists>c d. ns g = Some c \<and> cfg g = Some d
            \<and> (\<forall>k\<in>set [''root_dir'', ''vscode_dir'', ''cfg_dir''].
                  \<exists>v. getitem d k = Some (PStr v) \<and> getitem (configuration c) k = Some (PStr v))
            \<and> (\<forall>p\<in>set (collections c).
                  \<exists>n m. getitem (modules g) n = Some m \<and> from_module n m = Inr (snd p)))
       \<and> (\<forall>k rhs w' g'. exec (SetItem k rhs) w g = (w', Inr g') \<longrightarrow> ns g' = ns g)"
proof (intro conjI)
  from configure_position [OF j conf] have j7: "j = 7" .
  then show "\<forall>p k rhs. p < length module_body \<and> module_body ! p = SetItem k rhs \<longrightarrow> p < j"
    using setitems_before_configure by blast
  show "concat (map (\<lambda>s. case s of SetItem k rhs \<Rightarrow> [k] | _ \<Rightarrow> []) module_body) =
      [''root_dir'', ''vscode_dir'', ''cfg_dir'']"
    by (simp add: module_body_def)
  from i j7 have "8 \<le> i" by simp
  then have "take i module_body = take 8 module_body @ take (i - 8) (drop 8 module_body)"
    by (metis le_add_diff_inverse take_add)
  then have split: "take i module_body =
      take 8 module_body @ map AddCollection (take (i - 8) task_names)"
    by (simp add: adds_after_configure take_map)
  from gi obtain g8 where st: "snd (run (take 8 module_body) w empty_globals) = Inr g8"
    and part: "snd (run (map AddCollection (take (i - 8) task_names)) w g8) = Inr gi"
    by (cases "snd (run (take 8 module_body) w empty_globals)")
      (simp_all add: split snd_run_append)
  from g st have all: "snd (run (map AddCollection task_names) w g8) = Inr g"
    by (simp add: construct_def run_stages)
  from run_adds_keep [OF part] run_adds_keep [OF all]
  show "cfg gi = cfg g"
    and "map_option configuration (ns gi) = map_option configuration (ns g)"
    by simp_all
  let ?f = "\<lambda>n. the_loaded (task_modules w n)"
  let ?k = "\<lambda>n. registered_name n (?f n)"
  let ?v = "\<lambda>n. module_collection n (?f n)"
  from construct_cfg [OF g] obtain u :: u_utils and d c
    where c: "cfg g = Some d" "ns g = Some c" "configuration c = d"
      and k: "getitem d ''root_dir'' = Some (PStr (UBXLIB_DIR u))"
        "getitem d ''vscode_dir'' = Some (PStr (UBXLIB_DIR u @ ''/.vscode''))"
        "getitem d ''cfg_dir'' = Some (PStr (AUTOMATION_DIR u))"
    by auto
  from construct_collections [OF g] c(2)
  have ms: "modules g = map (\<lambda>n. (n, ?f n)) task_names"
    and subs: "collections c = foldl (\<lambda>acc n. setitem acc (?k n) (?v n)) [] task_names"
    by auto
  have entries: "\<forall>p\<in>set (collections c).
      \<exists>n m. getitem (modules g) n = Some m \<and> from_module n m = Inr (snd p)"
  proof
    fix p
    assume "p \<in> set (collections c)"
    with subs foldl_setitem_set [of ?k ?v "[]" task_names]
    obtain n where n: "n \<in> set task_names" and p: "p = (?k n, ?v n)" by auto
    from n ms have "getitem (modules g) n = Some (?f n)"
      using modules_bound [of n ?f "[]"] by (simp add: bound_modules)
    with p show "\<exists>n m. getitem (modules g) n = Some m \<and> from_module n m = Inr (snd p)"
      by (auto simp: from_module_collection)
  qed
  from c k entries
  show "\<exists>c d. ns g = Some c \<and> cfg g = Some d
            \<and> (\<forall>k\<in>set [''root_dir'', ''vscode_dir'', ''cfg_dir''].
                  \<exists>v. getitem d k = Some (PStr v) \<and> getitem (configuration c) k = Some (PStr v))
            \<and> (\<forall>p\<in>set (collections c).
                  \<exists>n m. getitem (modules g) n = Some m \<and> from_module n m = Inr (snd p))"
    by simp
  show "\<forall>k rhs w' g'. exec (SetItem k rhs) w g = (w', Inr g') \<longrightarrow> ns g' = ns g"
    by (auto split: option.splits sum.splits)
qed

theorem configuration_settled_witness:
  "module_body ! 7 = Configure
   \<and> snd (run (take 8 module_body) example_world empty_globals) = Inr example_configured
   \<and> snd (construct example_world) = Inr example_globals
   \<and> cfg example_configured = Some example_cfg
   \<and> map_option configuration (ns example_configured) = Some example_cfg"
proof -
  have j: "7 < length module_body" and conf: "module_body ! 7 = Configure"
    by (simp_all add: module_body_def)
  have "(7::nat) < 8" by simp
  from configuration_settled [OF j conf this example_configured_run example_run]
  have "cfg example_configured = cfg example_globals"
    and "map_option configuration (ns example_configured) =
         map_option configuration (ns example_globals)"
    by simp_all
  then show ?thesis using conf example_configured_run example_run
    by (simp add: example_globals_def example_ns_def)
qed

text \<open>
  C6, as it is stated, fails: after the construction in the concrete world, the item
  assignment \<open>cfg['root_dir'] = u_utils.AUTOMATION_DIR\<close> changes the value of \<open>root_dir\<close>
  in \<open>cfg\<close>, and the namespace still holds the value from before: the configuration is
  neither immutable nor shared by reference.
\<close>

theorem assignment_after_construction_counterexample:
  "snd (construct example_world) = Inr example_globals
   \<and> snd (exec (SetItem ''root_dir'' AUTOMATION_DIR) example_world example_globals) =
       Inr (example_globals\<lparr>cfg := Some example_cfg_reassigned\<rparr>)
   \<and> getitem example_cfg ''root_dir'' = Some (PStr ''/ubxlib'')
   \<and> getitem example_cfg_reassigned ''root_dir'' =
       Some (PStr ''/ubxlib/port/platform/common/automation'')
   \<and> ns (example_globals\<lparr>cfg := Some example_cfg_reassigned\<rparr>) = Some example_ns
   \<and> getitem (configuration example_ns) ''root_dir'' = Some (PStr ''/ubxlib'')"
proof -
  have "snd (exec (SetItem ''root_dir'' AUTOMATION_DIR) example_world example_globals) =
       Inr (example_globals\<lparr>cfg := Some example_cfg_reassigned\<rparr>)"
    by code_simp
  then show ?thesis using example_run
    by (simp add: example_globals_def example_ns_def example_cfg_def
          example_cfg_reassigned_def getitem_def)
qed

text \<open>
  C7: after construction \<open>root_dir\<close> is \<open>u_utils.UBXLIB_DIR\<close> and \<open>cfg_dir\<close> is
  \<open>u_utils.AUTOMATION_DIR\<close>, both as the utility module gives them.
\<close>

theorem dirs_from_u_utils:
  assumes "snd (construct w) = Inr g"
  shows "\<exists>u d. scripts_u_utils w = Inr u \<and> cfg g = Some d
           \<and> getitem d ''root_dir'' = Some (PStr (UBXLIB_DIR u))
           \<and> getitem d ''cfg_dir'' = Some (PStr (AUTOMATION_DIR u))"
  using construct_cfg [OF assms] by blast

theorem dirs_from_u_utils_witness:
  "snd (construct example_world) = Inr example_globals
   \<and> getitem example_cfg ''root_dir'' = Some (PStr ''/ubxlib'')
   \<and> getitem example_cfg ''cfg_dir'' =
       Some (PStr ''/ubxlib/port/platform/common/automation'')"
proof -
  have u: "scripts_u_utils example_world =
      Inr \<lparr>UBXLIB_DIR = ''/ubxlib'',
           AUTOMATION_DIR = ''/ubxlib/port/platform/common/automation''\<rparr>"
    by code_simp
  from dirs_from_u_utils [OF example_run] obtain u d
    where "scripts_u_utils example_world = Inr u" and "cfg example_globals = Some d"
      and "getitem d ''root_dir'' = Some (PStr (UBXLIB_DIR u))"
      and "getitem d ''cfg_dir'' = Some (PStr (AUTOMATION_DIR u))"
    by blast
  then show ?thesis using example_run u
    by (auto simp: example_globals_def)
qed

text \<open>
  C8: whenever the module is about to run one of its \<open>add_collection\<close> statements, the
  configuration has its three keys, with the values of the utility module, and the
  namespace holds that configuration.
\<close>

theorem configured_before_add_collection:
  assumes i: "i < length module_body"
    and add: "module_body ! i = AddCollection n"
    and run: "snd (run (take i module_body) w empty_globals) = Inr g"
  shows "\<exists>u c d. scripts_u_utils w = Inr u \<and> ns g = Some c \<and> cfg g = Some d
           \<and> configuration c = d
           \<and> getitem d ''root_dir'' = Some (PStr (UBXLIB_DIR u))
           \<and> getitem d ''vscode_dir'' = Some (PStr (UBXLIB_DIR u @ ''/.vscode''))
           \<and> getitem d ''cfg_dir'' = Some (PStr (AUTOMATION_DIR u))"
proof -
  from add have ge: "8 \<le> i" using no_add_before_configure [of i n] by (cases "i < 8") simp_all
  then have "take i module_body = take 8 module_body @ take (i - 8) (drop 8 module_body)"
    by (metis le_add_diff_inverse take_add)
  then have split: "take i module_body =
      take 8 module_body @ map AddCollection (take (i - 8) task_names)"
    by (simp add: adds_after_configure take_map)
  from run obtain g8 where st: "snd (run (take 8 module_body) w empty_globals) = Inr g8"
    and rest: "snd (run (map AddCollection (take (i - 8) task_names)) w g8) = Inr g"
    by (cases "snd (run (take 8 module_body) w empty_globals)")
      (simp_all add: split snd_run_append)
  from stage_Inr [OF st] obtain u d0 where u: "scripts_u_utils w = Inr u"
      and ok: "\<forall>n\<in>set task_names. \<exists>m. task_modules w n = Loaded m"
      and d0: "new_config w = Inr d0"
      and nd: "\<not> holds_dict d0 ''root_dir''" "\<not> holds_dict d0 ''vscode_dir''"
        "\<not> holds_dict d0 ''cfg_dir''"
    by blast
  from st configured_stage [OF u ok d0 nd, of empty_globals]
  have g8: "cfg g8 = Some (setitem (setitem (setitem d0 ''root_dir'' (PStr (UBXLIB_DIR u)))
                        ''vscode_dir'' (PStr (UBXLIB_DIR u @ ''/.vscode'')))
                        ''cfg_dir'' (PStr (AUTOMATION_DIR u)))"
      "map_option configuration (ns g8) =
         Some (setitem (setitem (setitem d0 ''root_dir'' (PStr (UBXLIB_DIR u)))
                        ''vscode_dir'' (PStr (UBXLIB_DIR u @ ''/.vscode'')))
                        ''cfg_dir'' (PStr (AUTOMATION_DIR u)))"
    by auto
  from run_adds_keep [OF rest] g8 u show ?thesis
    by (auto simp: getitem_setitem)
qed

theorem configured_before_add_collection_witness:
  "module_body ! 8 = AddCollection ''nrfconnect''
   \<and> snd (run (take 8 module_body) example_world empty_globals) = Inr example_configured
   \<and> map_option configuration (ns example_configured) = Some example_cfg
   \<and> getitem example_cfg ''cfg_dir'' =
       Some (PStr ''/ubxlib/port/platform/common/automation'')"
proof -
  have i: "8 < length module_body" by (simp add: module_body_def)
  have add: "module_body ! 8 = AddCollection ''nrfconnect''" by (simp add: module_body_def)
  have u: "scripts_u_utils example_world =
      Inr \<lparr>UBXLIB_DIR = ''/ubxlib'',
           AUTOMATION_DIR = ''/ubxlib/port/platform/common/automation''\<rparr>"
    by code_simp
  from configured_before_add_collection [OF i add example_configured_run] obtain u c d
    where "scripts_u_utils example_world = Inr u" and "ns example_configured = Some c"
      and "cfg example_configured = Some d" and "configuration c = d"
      and "getitem d ''cfg_dir'' = Some (PStr (AUTOMATION_DIR u))"
    by blast
  then show ?thesis using add example_configured_run u
    by (auto simp: example_configured_def example_globals_def)
qed

text \<open>
  C9, as the module behaves: the result of the construction is a function of the import
  of \<open>scripts.u_utils\<close>, of the imports of the seven task modules and of the settings that
  \<open>Config()\<close> loads; the command line and the environment variables, which the module
  does not read, have no part in it. The collections of the namespace and the values
  under \<open>root_dir\<close>, \<open>vscode_dir\<close> and \<open>cfg_dir\<close> do not depend on the loaded settings.
\<close>

theorem construct_inputs:
  assumes "scripts_u_utils w1 = scripts_u_utils w2"
    and "\<forall>n\<in>set task_names. task_modules w1 n = task_modules w2 n"
  shows "(invoke_config_levels w1 = invoke_config_levels w2 \<longrightarrow>
            snd (construct w1) = snd (construct w2))
       \<and> (snd (construct w1) = Inr g1 \<and> snd (construct w2) = Inr g2 \<longrightarrow>
            (\<exists>c1 c2 d1 d2. ns g1 = Some c1 \<and> ns g2 = Some c2
               \<and> cfg g1 = Some d1 \<and> cfg g2 = Some d2
               \<and> collections c1 = collections c2
               \<and> (\<forall>k\<in>set [''root_dir'', ''vscode_dir'', ''cfg_dir''].
                     getitem d1 k = getitem d2 k
                     \<and> getitem (configuration c1) k = getitem (configuration c2) k)))"
proof (intro conjI impI)
  assume "invoke_config_levels w1 = invoke_config_levels w2"
  with assms show "snd (construct w1) = snd (construct w2)"
    unfolding construct_def by (rule construct_determined)
next
  assume g: "snd (construct w1) = Inr g1 \<and> snd (construct w2) = Inr g2"
  from g construct_cfg [of w1 g1] obtain u1 d1 c1 where 1: "scripts_u_utils w1 = Inr u1"
      "cfg g1 = Some d1" "ns g1 = Some c1" "configuration c1 = d1"
      "getitem d1 ''root_dir'' = Some (PStr (UBXLIB_DIR u1))"
      "getitem d1 ''vscode_dir'' = Some (PStr (UBXLIB_DIR u1 @ ''/.vscode''))"
      "getitem d1 ''cfg_dir'' = Some (PStr (AUTOMATION_DIR u1))"
    by blast
  from g construct_cfg [of w2 g2] obtain u2 d2 c2 where 2: "scripts_u_utils w2 = Inr u2"
      "cfg g2 = Some d2" "ns g2 = Some c2" "configuration c2 = d2"
      "getitem d2 ''root_dir'' = Some (PStr (UBXLIB_DIR u2))"
      "getitem d2 ''vscode_dir'' = Some (PStr (UBXLIB_DIR u2 @ ''/.vscode''))"
      "getitem d2 ''cfg_dir'' = Some (PStr (AUTOMATION_DIR u2))"
    by blast
  from assms(1) 1(1) 2(1) have u: "u2 = u1" by simp
  have "foldl (\<lambda>acc n. setitem acc (registered_name n (the_loaded (task_modules w1 n)))
                 (module_collection n (the_loaded (task_modules w1 n)))) [] task_names =
        foldl (\<lambda>acc n. setitem acc (registered_name n (the_loaded (task_modules w2 n)))
                 (module_collection n (the_loaded (task_modules w2 n)))) [] task_names"
    using assms(2) by (intro foldl_cong) simp_all
  with g construct_collections [of w1 g1] construct_collections [of w2 g2] 1(3) 2(3)
  have "collections c1 = collections c2" by auto
  with 1 2 u show "\<exists>c1 c2 d1 d2. ns g1 = Some c1 \<and> ns g2 = Some c2
               \<and> cfg g1 = Some d1 \<and> cfg g2 = Some d2
               \<and> collections c1 = collections c2
               \<and> (\<forall>k\<in>set [''root_dir'', ''vscode_dir'', ''cfg_dir''].
                     getitem d1 k = getitem d2 k
                     \<and> getitem (configuration c1) k = getitem (configuration c2) k)"
    by simp
qed

theorem construct_inputs_witness:
  "scripts_u_utils example_world = scripts_u_utils example_world_echo
   \<and> argv example_world \<noteq> argv (example_world\<lparr>argv := []\<rparr>)
   \<and> snd (construct (example_world\<lparr>argv := []\<rparr>)) = Inr example_globals
   \<and> (\<exists>g. snd (construct example_world_echo) = Inr g
        \<and> map_option collections (ns g) = Some (collections example_ns))"
proof -
  have a: "scripts_u_utils example_world = scripts_u_utils example_world_echo"
    by (simp add: example_world_echo_def scripts_u_utils_def split: option.splits)
  have b: "\<forall>n\<in>set task_names.
      task_modules example_world n = task_modules example_world_echo n"
    by (simp add: example_world_echo_def task_modules_def split: option.splits)
  obtain g where g: "snd (construct example_world_echo) = Inr g"
    using example_echo_run by blast
  from construct_inputs [OF a b, of example_globals g] example_run g
  have "map_option collections (ns g) = Some (collections example_ns)"
    by (auto simp: example_globals_def)
  moreover have "scripts_u_utils example_world = scripts_u_utils (example_world\<lparr>argv := []\<rparr>)"
    "\<forall>n\<in>set task_names.
      task_modules example_world n = task_modules (example_world\<lparr>argv := []\<rparr>) n"
    by (simp_all add: scripts_u_utils_def task_modules_def split: option.splits)
  from construct_inputs [OF this, of example_globals example_globals] example_run
  have "snd (construct (example_world\<lparr>argv := []\<rparr>)) = Inr example_globals" by simp
  moreover have "argv example_world \<noteq> argv (example_world\<lparr>argv := []\<rparr>)"
    by (simp add: example_world_def)
  ultimately show ?thesis using a g by simp
qed

text \<open>
  C9, as it is stated, fails: two worlds with the same utility module and the same task
  modules, in which the library loads different settings, give different results.
\<close>

theorem config_dependence_counterexample:
  "scripts_u_utils example_world = scripts_u_utils example_world_echo
   \<and> task_modules example_world = task_modules example_world_echo
   \<and> snd (construct example_world) \<noteq> snd (construct example_world_echo)"
proof -
  have "snd (construct example_world) \<noteq> snd (construct example_world_echo)"
    by code_simp
  then show ?thesis
    by (simp add: example_world_echo_def scripts_u_utils_def task_modules_def fun_eq_iff
          split: option.splits)
qed




end
